theory Spec2Isabelle
  imports Main "HOL-Library.Log_Nat"
begin

section \<open>JavaScript numbers\<close>

text \<open>
  Every amount of the sheet is a JavaScript \<^verbatim>\<open>number\<close>, an IEEE 754 binary64 value.
  A finite number is represented by the rational it denotes; results of arithmetic are
  rounded to the nearest representable value, ties to even, with gradual underflow and
  overflow to the infinities. The two zeros are identified: \<^verbatim>\<open>===\<close> does not tell them
  apart, every sum of the program starts from \<open>+0\<close>, and its one division has a divisor
  that it has found truthy.
\<close>

datatype jsnum = Finite rat | PosInfinity | NegInfinity | NaN

text \<open>\<open>ilog2 x\<close> is the binary exponent of a positive rational: \<open>2^(ilog2 x) \<le> x < 2^(ilog2 x + 1)\<close>.\<close>

definition ilog2 :: "rat \<Rightarrow> int" where
  "ilog2 x = (if 1 \<le> x then bitlen \<lfloor>x\<rfloor> - 1 else - bitlen (\<lceil>1 / x\<rceil> - 1))"

definition round_half_even :: "rat \<Rightarrow> int" where
  "round_half_even q =
     (let f = \<lfloor>q\<rfloor>; d = q - of_int f
      in if d < 1 / 2 then f else if 1 / 2 < d then f + 1 else if even f then f else f + 1)"

text \<open>
  Rounding of an exact result to binary64: the spacing of the representable values around
  \<open>x\<close> is \<open>2^e\<close> with \<open>e = max (ilog2 \<bar>x\<bar>) (-1022) - 52\<close> (53 significant bits, subnormal
  spacing \<open>2^-1074\<close>); a result of magnitude \<open>2^1024\<close> or more is an infinity.
\<close>

definition rnd :: "rat \<Rightarrow> jsnum" where
  "rnd x =
     (if x = 0 then Finite 0
      else let e = max (ilog2 \<bar>x\<bar>) (- 1022) - 52;
               m = round_half_even (x / 2 powi e)
           in if 971 < e \<or> (e = 971 \<and> 2 ^ 53 \<le> \<bar>m\<bar>)
              then (if 0 < x then PosInfinity else NegInfinity)
              else Finite (of_int m * 2 powi e))"

text \<open>The representable finite values are multiples of the smallest subnormal.\<close>

definition is_grid :: "rat \<Rightarrow> bool" where
  "is_grid x \<longleftrightarrow> (\<exists>k::int. x = of_int k * 2 powi (- 1074))"

fun on_grid :: "jsnum \<Rightarrow> bool" where
  "on_grid (Finite x) = is_grid x"
| "on_grid a = True"

text \<open>A finite value is a binary64 value when rounding leaves it as it is.\<close>

fun representable :: "jsnum \<Rightarrow> bool" where
  "representable (Finite x) = (rnd x = Finite x)"
| "representable a = True"

fun jneg :: "jsnum \<Rightarrow> jsnum" where
  "jneg (Finite x) = Finite (- x)"
| "jneg PosInfinity = NegInfinity"
| "jneg NegInfinity = PosInfinity"
| "jneg NaN = NaN"

fun jadd :: "jsnum \<Rightarrow> jsnum \<Rightarrow> jsnum" where
  "jadd (Finite x) (Finite y) = rnd (x + y)"
| "jadd NaN b = NaN"
| "jadd a NaN = NaN"
| "jadd PosInfinity NegInfinity = NaN"
| "jadd NegInfinity PosInfinity = NaN"
| "jadd PosInfinity b = PosInfinity"
| "jadd NegInfinity b = NegInfinity"
| "jadd (Finite x) b = b"

definition jsub :: "jsnum \<Rightarrow> jsnum \<Rightarrow> jsnum" where
  "jsub a b = jadd a (jneg b)"

fun jsign :: "jsnum \<Rightarrow> int" where
  "jsign (Finite x) = (if x < 0 then - 1 else if x = 0 then 0 else 1)"
| "jsign PosInfinity = 1"
| "jsign NegInfinity = - 1"
| "jsign NaN = 0"

definition signed_infinity :: "int \<Rightarrow> jsnum" where
  "signed_infinity s = (if s = 0 then NaN else if 0 < s then PosInfinity else NegInfinity)"

fun jmul :: "jsnum \<Rightarrow> jsnum \<Rightarrow> jsnum" where
  "jmul (Finite x) (Finite y) = rnd (x * y)"
| "jmul NaN b = NaN"
| "jmul a NaN = NaN"
| "jmul a b = signed_infinity (jsign a * jsign b)"

fun jdiv :: "jsnum \<Rightarrow> jsnum \<Rightarrow> jsnum" where
  "jdiv (Finite x) (Finite y) = (if y = 0 then signed_infinity (jsign (Finite x)) else rnd (x / y))"
| "jdiv NaN b = NaN"
| "jdiv a NaN = NaN"
| "jdiv (Finite x) b = Finite 0"
| "jdiv a (Finite y) = signed_infinity (jsign a * (if y < 0 then - 1 else 1))"
| "jdiv a b = NaN"

text \<open>\<^verbatim>\<open>Math.round\<close>: the nearest integer, a tie going towards \<open>+\<infinity>\<close>.\<close>

fun jround :: "jsnum \<Rightarrow> jsnum" where
  "jround (Finite x) = Finite (of_int \<lfloor>x + 1 / 2\<rfloor>)"
| "jround a = a"

text \<open>\<^verbatim>\<open>Math.max\<close> of two arguments: \<^verbatim>\<open>NaN\<close> as soon as one of them is.\<close>

fun jmax :: "jsnum \<Rightarrow> jsnum \<Rightarrow> jsnum" where
  "jmax (Finite x) (Finite y) = Finite (max x y)"
| "jmax NaN b = NaN"
| "jmax a NaN = NaN"
| "jmax PosInfinity b = PosInfinity"
| "jmax a PosInfinity = PosInfinity"
| "jmax NegInfinity b = b"
| "jmax a NegInfinity = a"

text \<open>
  \<^verbatim>\<open>Number.isFinite\<close>, the truthiness of a number, and the sign tests \<^verbatim>\<open>v > 0\<close> and
  \<^verbatim>\<open>v < 0\<close>.
\<close>

fun isFinite :: "jsnum \<Rightarrow> bool" where
  "isFinite (Finite x) = True"
| "isFinite a = False"

fun truthy_number :: "jsnum \<Rightarrow> bool" where
  "truthy_number (Finite x) = (x \<noteq> 0)"
| "truthy_number NaN = False"
| "truthy_number a = True"

fun positive :: "jsnum \<Rightarrow> bool" where
  "positive (Finite x) = (0 < x)"
| "positive PosInfinity = True"
| "positive a = False"

fun negative :: "jsnum \<Rightarrow> bool" where
  "negative (Finite x) = (x < 0)"
| "negative NegInfinity = True"
| "negative a = False"

text \<open>A number that is neither negative nor \<^verbatim>\<open>NaN\<close>.\<close>

fun not_negative :: "jsnum \<Rightarrow> bool" where
  "not_negative (Finite x) = (0 \<le> x)"
| "not_negative PosInfinity = True"
| "not_negative a = False"

text \<open>The order of the numbers other than \<^verbatim>\<open>NaN\<close> (\<^verbatim>\<open>a < b\<close> and \<^verbatim>\<open>a <= b\<close>); false at \<^verbatim>\<open>NaN\<close>.\<close>

fun jless :: "jsnum \<Rightarrow> jsnum \<Rightarrow> bool" where
  "jless (Finite x) (Finite y) = (x < y)"
| "jless NaN b = False"
| "jless a NaN = False"
| "jless a NegInfinity = False"
| "jless PosInfinity b = False"
| "jless a b = True"

definition jle :: "jsnum \<Rightarrow> jsnum \<Rightarrow> bool" where
  "jle a b \<longleftrightarrow> a \<noteq> NaN \<and> b \<noteq> NaN \<and> \<not> jless b a"


section \<open>Strings and \<^verbatim>\<open>parseFloat\<close>\<close>

text \<open>
  A \<open>string\<close> stands for a JavaScript string all of whose code units are below \<open>256\<close>;
  the white space and line terminators among those are the seven below.
\<close>

definition is_ws :: "char \<Rightarrow> bool" where
  "is_ws c \<longleftrightarrow> (of_char c :: nat) \<in> {9, 10, 11, 12, 13, 32, 160}"

definition trim :: "string \<Rightarrow> string" where
  "trim s = rev (dropWhile is_ws (rev (dropWhile is_ws s)))"

definition is_digit :: "char \<Rightarrow> bool" where
  "is_digit c \<longleftrightarrow> 48 \<le> (of_char c :: nat) \<and> (of_char c :: nat) \<le> 57"

definition digits_value :: "string \<Rightarrow> nat" where
  "digits_value ds = foldl (\<lambda>a c. 10 * a + (of_char c - 48)) 0 ds"

text \<open>The exponent part of a decimal literal, \<open>0\<close> where the text has none.\<close>

definition exponent_part :: "string \<Rightarrow> int" where
  "exponent_part s =
     (case s of
        [] \<Rightarrow> 0
      | c # r \<Rightarrow>
          if c = CHR ''e'' \<or> c = CHR ''E'' then
            (case r of
               [] \<Rightarrow> 0
             | d # r' \<Rightarrow>
                 if d = CHR ''-'' then
                   (if takeWhile is_digit r' = [] then 0 else - int (digits_value (takeWhile is_digit r')))
                 else if d = CHR ''+'' then int (digits_value (takeWhile is_digit r'))
                 else int (digits_value (takeWhile is_digit r)))
          else 0)"

text \<open>
  \<^verbatim>\<open>Number.parseFloat\<close>: leading white space is skipped, the longest prefix that is a
  decimal literal (sign, \<^verbatim>\<open>Infinity\<close> or digits with an optional fraction and exponent)
  is read, and its value is rounded; \<^verbatim>\<open>NaN\<close> when no prefix is a literal. (The
  language lets an implementation round a literal of more than 20 significant digits
  less exactly; the value here is the exact one.)
\<close>

definition parseFloat :: "string \<Rightarrow> jsnum" where
  "parseFloat s =
     (let t = dropWhile is_ws s;
          neg = (take 1 t = ''-'');
          u = (if take 1 t = ''-'' \<or> take 1 t = ''+'' then drop 1 t else t)
      in if take 8 u = ''Infinity'' then (if neg then NegInfinity else PosInfinity)
         else
           let ip = takeWhile is_digit u;
               r1 = dropWhile is_digit u;
               fp = (if take 1 r1 = ''.'' then takeWhile is_digit (drop 1 r1) else []);
               r2 = (if take 1 r1 = ''.'' then dropWhile is_digit (drop 1 r1) else r1)
           in if ip = [] \<and> fp = [] then NaN
              else
                let mv = of_nat (digits_value (ip @ fp)) * 10 powi (exponent_part r2 - int (length fp))
                in rnd (if neg then - mv else mv))"

section \<open>The sheet\<close>

datatype MonthKey = Jan | Feb | Mar | Apr | May | Jun | Jul | Aug | Sep | Oct | Nov | Dec

definition MONTHS :: "MonthKey list" where
  "MONTHS = [Jan, Feb, Mar, Apr, May, Jun, Jul, Aug, Sep, Oct, Nov, Dec]"

datatype CategoryType = Income | Expense | Savings

text \<open>
  A \<^verbatim>\<open>Record<MonthKey, number>\<close> is an object: its own keys in insertion order, each with
  its value. \<open>lookup\<close> is the property read (\<open>None\<close> for \<^verbatim>\<open>undefined\<close>), \<open>assign\<close> the
  property write, which keeps the place of a key that is there and appends a new one.
\<close>

type_synonym month_values = "(MonthKey \<times> jsnum) list"

definition lookup :: "('k \<times> 'v) list \<Rightarrow> 'k \<Rightarrow> 'v option" where
  "lookup obj k = map_of obj k"

fun assign :: "'k \<Rightarrow> 'v \<Rightarrow> ('k \<times> 'v) list \<Rightarrow> ('k \<times> 'v) list" where
  "assign k v [] = [(k, v)]"
| "assign k v (p # obj) = (if fst p = k then (k, v) # obj else p # assign k v obj)"

record SheetRow =
  id' :: string
  label :: string
  type' :: CategoryType
  values' :: month_values

record PersistedState =
  rows :: "SheetRow list"
  currency :: string

definition cloneRows :: "SheetRow list \<Rightarrow> SheetRow list" where
  "cloneRows rs = map (\<lambda>row. row\<lparr>values' := values' row\<rparr>) rs"

text \<open>The amount that the reducer of \<^verbatim>\<open>createBlankValues\<close> writes for the month at \<open>index\<close>.\<close>

definition month_amount :: "jsnum \<Rightarrow> jsnum \<Rightarrow> nat \<Rightarrow> jsnum" where
  "month_amount base variation index =
     jmax (Finite 0) (jround (jadd base
       (jdiv (jmul (if index mod 2 = 0 then Finite (- 1) else Finite 1) variation) (Finite 2))))"

definition createBlankValues :: "jsnum \<Rightarrow> jsnum \<Rightarrow> month_values" where
  "createBlankValues base variation =
     foldl (\<lambda>acc (month, index).
              let drift = jdiv (jmul (if index mod 2 = 0 then Finite (- 1) else Finite 1) variation) (Finite 2)
              in assign month (jmax (Finite 0) (jround (jadd base drift))) acc)
           [] (zip MONTHS [0 ..< length MONTHS])"

definition createZeroValues :: "month_values" where
  "createZeroValues = foldl (\<lambda>acc month. assign month (Finite 0) acc) [] MONTHS"

definition defaultRows :: "SheetRow list" where
  "defaultRows =
     [\<lparr>id' = ''salary'', label = ''Primary Income'', type' = Income,
        values' = createBlankValues (Finite 5500) (Finite 0)\<rparr>,
      \<lparr>id' = ''side-income'', label = ''Side Income'', type' = Income,
        values' = createBlankValues (Finite 650) (Finite 0)\<rparr>,
      \<lparr>id' = ''rent'', label = ''Housing & Rent'', type' = Expense,
        values' = createBlankValues (Finite 1850) (Finite 20)\<rparr>,
      \<lparr>id' = ''groceries'', label = ''Groceries'', type' = Expense,
        values' = createBlankValues (Finite 580) (Finite 60)\<rparr>,
      \<lparr>id' = ''transport'', label = ''Transportation'', type' = Expense,
        values' = createBlankValues (Finite 220) (Finite 30)\<rparr>,
      \<lparr>id' = ''subscriptions'', label = ''Subscriptions'', type' = Expense,
        values' = createBlankValues (Finite 95) (Finite 5)\<rparr>,
      \<lparr>id' = ''emergency-fund'', label = ''Emergency Fund'', type' = Savings,
        values' = createBlankValues (Finite 400) (Finite 50)\<rparr>,
      \<lparr>id' = ''retirement'', label = ''Retirement'', type' = Savings,
        values' = createBlankValues (Finite 650) (Finite 20)\<rparr>]"

subsection \<open>Derived aggregates\<close>

definition sumRecord :: "month_values \<Rightarrow> jsnum" where
  "sumRecord vs = foldl (\<lambda>total current. jadd total current) (Finite 0) (map snd vs)"

definition totalFor :: "MonthKey \<Rightarrow> SheetRow list \<Rightarrow> CategoryType \<Rightarrow> jsnum" where
  "totalFor month rs ty =
     foldl (\<lambda>acc row. jadd acc (case lookup (values' row) month of Some v \<Rightarrow> v | None \<Rightarrow> Finite 0))
           (Finite 0) (filter (\<lambda>row. type' row = ty) rs)"

record 'a totals =
  income :: 'a
  expense :: 'a
  savings :: 'a
  net :: 'a

definition monthlyTotals :: "SheetRow list \<Rightarrow> month_values totals" where
  "monthlyTotals rs =
     foldl (\<lambda>acc month.
              let inc = totalFor month rs Income;
                  exps = totalFor month rs Expense;
                  sav = totalFor month rs Savings
              in \<lparr>income = assign month inc (income acc),
                  expense = assign month exps (expense acc),
                  savings = assign month sav (savings acc),
                  net = assign month (jsub (jsub inc exps) sav) (net acc)\<rparr>)
           \<lparr>income = createZeroValues, expense = createZeroValues,
            savings = createZeroValues, net = createZeroValues\<rparr>
           MONTHS"

definition annualTotals :: "SheetRow list \<Rightarrow> jsnum totals" where
  "annualTotals rs =
     (let mt = monthlyTotals rs
      in \<lparr>income = sumRecord (income mt), expense = sumRecord (expense mt),
          savings = sumRecord (savings mt), net = sumRecord (net mt)\<rparr>)"

definition savingsRate :: "SheetRow list \<Rightarrow> jsnum" where
  "savingsRate rs =
     (let annual = annualTotals rs
      in if truthy_number (income annual)
         then jmul (jdiv (savings annual) (income annual)) (Finite 100)
         else Finite 0)"

text \<open>
  \<^verbatim>\<open>Array.prototype.sort\<close> with a comparator. A \<^verbatim>\<open>NaN\<close> result of the comparator is
  read as \<open>+0\<close>; an element \<open>a\<close> is to go before \<open>b\<close> when \<^verbatim>\<open>comparator(a, b) < 0\<close>,
  after \<open>b\<close> when \<^verbatim>\<open>comparator(a, b) > 0\<close>, and the two are of the same rank when the
  result is a zero. The language fixes the outcome where the comparator is consistent
  on the elements of the array: being of the same rank is reflexive, symmetric and
  transitive, and so are going before and going after transitive. The sort is then
  stable (since ECMAScript 2019), and its outcome is the list that insertion from the
  right computes, each element put after the elements it is to go after. With any other
  comparator the order is left to the implementation: \<open>Engine_dependent\<close>.
\<close>

fun insert_sorted :: "('a \<Rightarrow> 'a \<Rightarrow> jsnum) \<Rightarrow> 'a \<Rightarrow> 'a list \<Rightarrow> 'a list" where
  "insert_sorted cmp a [] = [a]"
| "insert_sorted cmp a (b # bs) =
     (if positive (cmp a b) then b # insert_sorted cmp a bs else a # b # bs)"

definition sort_by :: "('a \<Rightarrow> 'a \<Rightarrow> jsnum) \<Rightarrow> 'a list \<Rightarrow> 'a list" where
  "sort_by cmp xs = foldr (insert_sorted cmp) xs []"

definition same_rank :: "('a \<Rightarrow> 'a \<Rightarrow> jsnum) \<Rightarrow> 'a \<Rightarrow> 'a \<Rightarrow> bool" where
  "same_rank cmp a b \<longleftrightarrow> \<not> negative (cmp a b) \<and> \<not> positive (cmp a b)"

definition consistent_comparator :: "('a \<Rightarrow> 'a \<Rightarrow> jsnum) \<Rightarrow> 'a list \<Rightarrow> bool" where
  "consistent_comparator cmp xs \<longleftrightarrow>
     (\<forall>a \<in> set xs. same_rank cmp a a) \<and>
     (\<forall>a \<in> set xs. \<forall>b \<in> set xs. same_rank cmp a b \<longrightarrow> same_rank cmp b a) \<and>
     (\<forall>a \<in> set xs. \<forall>b \<in> set xs. \<forall>c \<in> set xs.
        (same_rank cmp a b \<and> same_rank cmp b c \<longrightarrow> same_rank cmp a c) \<and>
        (negative (cmp a b) \<and> negative (cmp b c) \<longrightarrow> negative (cmp a c)) \<and>
        (positive (cmp a b) \<and> positive (cmp b c) \<longrightarrow> positive (cmp a c)))"

datatype 'a by_engine = Determined 'a | Engine_dependent

definition array_sort :: "('a \<Rightarrow> 'a \<Rightarrow> jsnum) \<Rightarrow> 'a list \<Rightarrow> 'a list by_engine" where
  "array_sort cmp xs =
     (if consistent_comparator cmp xs then Determined (sort_by cmp xs) else Engine_dependent)"

text \<open>
  The objects \<^verbatim>\<open>{label, total}\<close> of \<^verbatim>\<open>highestExpense\<close> are pairs; \<open>None\<close> is \<^verbatim>\<open>undefined\<close>,
  the element \<open>0\<close> of an empty array.
\<close>

definition highestExpense :: "SheetRow list \<Rightarrow> (string \<times> jsnum) option by_engine" where
  "highestExpense rs =
     (case array_sort (\<lambda>a b. jsub (snd b) (snd a))
             (map (\<lambda>row. (label row, sumRecord (values' row)))
                (filter (\<lambda>row. type' row = Expense) rs)) of
        Engine_dependent \<Rightarrow> Engine_dependent
      | Determined [] \<Rightarrow> Determined None
      | Determined (best # others) \<Rightarrow> Determined (Some best))"


section \<open>The component state and its handlers\<close>

text \<open>
  The state of \<^verbatim>\<open>FinanceSheet\<close>: the two \<^verbatim>\<open>useState\<close> cells and the entry of
  \<^verbatim>\<open>localStorage\<close> under \<^verbatim>\<open>STORAGE_KEY\<close> (\<open>None\<close> when the key is absent).
\<close>

record app = PersistedState +
  storage :: "string option"

text \<open>The state at mount: the initial values of the two \<^verbatim>\<open>useState\<close> cells.\<close>

definition initial :: "string option \<Rightarrow> app" where
  "initial stored = \<lparr>rows = cloneRows defaultRows, currency = ''USD'', storage = stored\<rparr>"

text \<open>The amount that \<^verbatim>\<open>handleChange\<close> writes for a parsed input.\<close>

definition cell_amount :: "jsnum \<Rightarrow> jsnum" where
  "cell_amount parsed = (if isFinite parsed then jmax parsed (Finite 0) else Finite 0)"

definition handleChange :: "string \<Rightarrow> MonthKey \<Rightarrow> string \<Rightarrow> app \<Rightarrow> app" where
  "handleChange rowId month val s =
     (let parsed = parseFloat val
      in s\<lparr>rows := map (\<lambda>row. if id' row = rowId
                                then row\<lparr>values' := assign month (cell_amount parsed) (values' row)\<rparr>
                                else row)
                       (rows s)\<rparr>)"

text \<open>
  \<open>answer\<close> is what \<^verbatim>\<open>window.prompt\<close> returns (\<open>None\<close> for \<^verbatim>\<open>null\<close>) and \<open>fresh\<close> the
  identifier that \<^verbatim>\<open>nanoid(8)\<close> draws.
\<close>

definition addRow :: "CategoryType \<Rightarrow> string option \<Rightarrow> string \<Rightarrow> app \<Rightarrow> app" where
  "addRow ty answer fresh s =
     (case answer of
        None \<Rightarrow> s
      | Some lbl \<Rightarrow>
          if lbl = [] then s
          else s\<lparr>rows := rows s @
                  [\<lparr>id' = fresh, label = trim lbl, type' = ty, values' = createZeroValues\<rparr>]\<rparr>)"

definition removeRow :: "string \<Rightarrow> app \<Rightarrow> app" where
  "removeRow rowId s = s\<lparr>rows := filter (\<lambda>row. id' row \<noteq> rowId) (rows s)\<rparr>"

text \<open>\<open>confirmed\<close> is the answer of \<^verbatim>\<open>window.confirm\<close>.\<close>

definition reset :: "bool \<Rightarrow> app \<Rightarrow> app" where
  "reset confirmed s =
     (if \<not> confirmed then s
      else \<lparr>rows = cloneRows defaultRows, currency = ''USD'', storage = None\<rparr>)"

definition setCurrency :: "string \<Rightarrow> app \<Rightarrow> app" where
  "setCurrency code s = s\<lparr>currency := code\<rparr>"

text \<open>
  The second effect writes the state back after a render in which \<^verbatim>\<open>rows\<close> or
  \<^verbatim>\<open>currency\<close> changed; \<open>stringify\<close> stands for \<^verbatim>\<open>JSON.stringify\<close>.
\<close>

definition save_effect :: "(PersistedState \<Rightarrow> string) \<Rightarrow> app \<Rightarrow> app" where
  "save_effect stringify s = s\<lparr>storage := Some (stringify \<lparr>rows = rows s, currency = currency s\<rparr>)\<rparr>"

text \<open>
  The state once a click on the reset button has been handled and the render that it
  causes is over. A confirmed \<^verbatim>\<open>reset\<close> sets \<^verbatim>\<open>rows\<close> to a new array, so that the
  dependencies of the second effect have changed and it runs after the render; a
  declined one sets no state, and nothing is rendered.
\<close>

definition after_reset :: "bool \<Rightarrow> (PersistedState \<Rightarrow> string) \<Rightarrow> app \<Rightarrow> app" where
  "after_reset confirmed stringify s =
     (if confirmed then save_effect stringify (reset confirmed s) else reset confirmed s)"

section \<open>Restoring the persisted state\<close>

text \<open>What \<^verbatim>\<open>JSON.parse\<close> can return.\<close>

datatype json =
  JNull | JBool bool | JNum jsnum | JStr string | JArr "json list" | JObj "(string \<times> json) list"

text \<open>
  An object holds its own properties in insertion order, each key once. \<open>read_prop v k\<close>
  is the own property \<open>k\<close> of \<open>v\<close> (\<open>None\<close> when \<open>v\<close> is no object or has no such property);
  for the keys \<^verbatim>\<open>rows\<close> and \<^verbatim>\<open>currency\<close>, which no prototype defines, it is the property
  read \<^verbatim>\<open>v.k\<close> of any value other than \<^verbatim>\<open>null\<close>, with \<open>None\<close> for \<^verbatim>\<open>undefined\<close>.
  \<open>truthy\<close> is the truthiness of what such a read yields.
\<close>

definition read_prop :: "json \<Rightarrow> string \<Rightarrow> json option" where
  "read_prop v k = (case v of JObj kvs \<Rightarrow> map_of kvs k | _ \<Rightarrow> None)"

fun truthy :: "json option \<Rightarrow> bool" where
  "truthy None = False"
| "truthy (Some JNull) = False"
| "truthy (Some (JBool b)) = b"
| "truthy (Some (JNum n)) = truthy_number n"
| "truthy (Some (JStr t)) = (t \<noteq> [])"
| "truthy (Some (JArr xs)) = True"
| "truthy (Some (JObj kvs)) = True"

text \<open>
  The cast \<^verbatim>\<open>as PersistedState\<close> checks nothing. The functions below read the copy that
  \<^verbatim>\<open>cloneRows\<close> makes of a parsed element at the declared types, where the copy has
  them: a row has a string \<^verbatim>\<open>id\<close> and \<^verbatim>\<open>label\<close>, a \<^verbatim>\<open>type\<close> among the three, and as
  \<^verbatim>\<open>values\<close> an object from month names to numbers (any of the twelve, in any order;
  fields of a row beyond these four are never read). The values of the copy are
  \<^verbatim>\<open>{...row.values}\<close>, the own properties of the field: a missing field, \<^verbatim>\<open>null\<close>, a
  number, a boolean, the empty string and the empty array have none, and the characters
  of a string and the elements of an array are properties under the keys \<open>0\<close>, \<open>1\<close>, ...,
  which are no month names. Where the copy does not have the shape of a row the result
  is \<open>None\<close>.
\<close>

definition asMonthKey :: "string \<Rightarrow> MonthKey option" where
  "asMonthKey k =
     map_of [(''Jan'', Jan), (''Feb'', Feb), (''Mar'', Mar), (''Apr'', Apr), (''May'', May),
             (''Jun'', Jun), (''Jul'', Jul), (''Aug'', Aug), (''Sep'', Sep), (''Oct'', Oct),
             (''Nov'', Nov), (''Dec'', Dec)] k"

definition asCategoryType :: "string \<Rightarrow> CategoryType option" where
  "asCategoryType t = map_of [(''income'', Income), (''expense'', Expense), (''savings'', Savings)] t"

fun asValues :: "(string \<times> json) list \<Rightarrow> month_values option" where
  "asValues [] = Some []"
| "asValues ((k, JNum n) # kvs) =
     (case (asMonthKey k, asValues kvs) of
        (Some m, Some vs) \<Rightarrow> Some ((m, n) # vs)
      | _ \<Rightarrow> None)"
| "asValues (kv # kvs) = None"

fun spread_values :: "json option \<Rightarrow> month_values option" where
  "spread_values None = Some []"
| "spread_values (Some (JObj kvs)) = asValues kvs"
| "spread_values (Some (JStr t)) = (if t = [] then Some [] else None)"
| "spread_values (Some (JArr xs)) = (if xs = [] then Some [] else None)"
| "spread_values (Some v) = Some []"

definition asSheetRow :: "json \<Rightarrow> SheetRow option" where
  "asSheetRow v =
     (case (read_prop v ''id'', read_prop v ''label'', read_prop v ''type'') of
        (Some (JStr i), Some (JStr l), Some (JStr t)) \<Rightarrow>
          (case (asCategoryType t, spread_values (read_prop v ''values'')) of
             (Some ty, Some vs) \<Rightarrow> Some \<lparr>id' = i, label = l, type' = ty, values' = vs\<rparr>
           | _ \<Rightarrow> None)
      | _ \<Rightarrow> None)"

fun those_rows :: "json list \<Rightarrow> SheetRow list option" where
  "those_rows [] = Some []"
| "those_rows (v # vs) =
     (case (asSheetRow v, those_rows vs) of
        (Some r, Some rs) \<Rightarrow> Some (r # rs)
      | _ \<Rightarrow> None)"

text \<open>
  The outcomes of the first effect: it returns early or finds a field falsy (\<open>Skipped\<close>);
  an exception is caught and a warning is logged (\<open>Warned\<close>); \<^verbatim>\<open>setRows\<close> and
  \<^verbatim>\<open>setCurrency\<close> are called with rows and a currency of the declared types (\<open>Restored\<close>),
  or with values outside these types (\<open>Untyped\<close>), where this model does not follow
  the program any further.
\<close>

datatype restore_outcome = Skipped | Warned | Restored "SheetRow list" string | Untyped

text \<open>
  The body of the \<^verbatim>\<open>try\<close> after \<^verbatim>\<open>JSON.parse\<close>. Reading a property of \<^verbatim>\<open>null\<close> throws,
  \<^verbatim>\<open>cloneRows\<close> throws when \<^verbatim>\<open>rows\<close> has no \<^verbatim>\<open>map\<close> method (it is not an array) and
  when an element is \<^verbatim>\<open>null\<close>; nothing else does.
\<close>

definition restore_parsed :: "json \<Rightarrow> restore_outcome" where
  "restore_parsed parsed =
     (if parsed = JNull then Warned
      else if \<not> (truthy (read_prop parsed ''rows'') \<and> truthy (read_prop parsed ''currency'')) then Skipped
      else
        (case read_prop parsed ''rows'' of
           Some (JArr elems) \<Rightarrow>
             if JNull \<in> set elems then Warned
             else
               (case (those_rows elems, read_prop parsed ''currency'') of
                  (Some rs, Some (JStr c)) \<Rightarrow> Restored (cloneRows rs) c
                | _ \<Rightarrow> Untyped)
         | _ \<Rightarrow> Warned))"

text \<open>
  The first effect, run once in the browser. \<open>JSON_parse\<close> stands for \<^verbatim>\<open>JSON.parse\<close>,
  with \<open>None\<close> for a thrown \<^verbatim>\<open>SyntaxError\<close>; \<open>raw\<close> is the entry of the store.
\<close>

definition restore :: "(string \<Rightarrow> json option) \<Rightarrow> string option \<Rightarrow> restore_outcome" where
  "restore JSON_parse raw =
     (case raw of
        None \<Rightarrow> Skipped
      | Some content \<Rightarrow>
          if content = [] then Skipped
          else
            (case JSON_parse content of
               None \<Rightarrow> Warned
             | Some parsed \<Rightarrow> restore_parsed parsed))"

text \<open>Whether the effect replaced the state.\<close>

fun replaces_state :: "restore_outcome \<Rightarrow> bool" where
  "replaces_state (Restored rs c) = True"
| "replaces_state Untyped = True"
| "replaces_state outcome = False"


section \<open>The invariant of the sheet and the reachable states\<close>

text \<open>An amount is in order when it is finite and not negative.\<close>

fun amount_ok :: "jsnum \<Rightarrow> bool" where
  "amount_ok (Finite x) = (0 \<le> x)"
| "amount_ok a = False"

text \<open>A row is in order when its values have each of the twelve months as a key, once, and
  every amount is in order.\<close>

definition row_ok :: "SheetRow \<Rightarrow> bool" where
  "row_ok row \<longleftrightarrow>
     distinct (map fst (values' row)) \<and> set (map fst (values' row)) = set MONTHS \<and>
     list_all (\<lambda>p. amount_ok (snd p)) (values' row)"

definition invariant :: "app \<Rightarrow> bool" where
  "invariant s \<longleftrightarrow> list_all row_ok (rows s)"

text \<open>
  The states that the component can be in: it starts from the template, with whatever the
  store holds; the first effect may replace rows and currency by restored ones, the second
  writes the store, and the handlers act. \<open>accepted\<close> says which restored rows are
  considered; \<open>any_rows\<close> considers all that the effect restores.
\<close>

definition any_rows :: "SheetRow list \<Rightarrow> bool" where
  "any_rows rs \<longleftrightarrow> True"

inductive reachable :: "(SheetRow list \<Rightarrow> bool) \<Rightarrow> app \<Rightarrow> bool"
  for accepted :: "SheetRow list \<Rightarrow> bool" where
  start: "reachable accepted (initial stored)"
| restored: "reachable accepted s \<Longrightarrow> restore JSON_parse (storage s) = Restored rs c \<Longrightarrow>
     accepted rs \<Longrightarrow> reachable accepted (s\<lparr>rows := rs, currency := c\<rparr>)"
| saved: "reachable accepted s \<Longrightarrow> reachable accepted (save_effect stringify s)"
| edited: "reachable accepted s \<Longrightarrow> reachable accepted (handleChange rowId month val s)"
| added: "reachable accepted s \<Longrightarrow> reachable accepted (addRow ty answer fresh s)"
| removed: "reachable accepted s \<Longrightarrow> reachable accepted (removeRow rowId s)"
| was_reset: "reachable accepted s \<Longrightarrow> reachable accepted (reset confirmed s)"
| currency_set: "reachable accepted s \<Longrightarrow> reachable accepted (setCurrency code s)"

section \<open>Sheets of whole amounts\<close>

text \<open>
  \<open>amount_at row month\<close> is \<^verbatim>\<open>row.values[month] ?? 0\<close>, the amount that \<^verbatim>\<open>totalFor\<close> adds.
  A sheet is whole when each of these amounts is a whole number that is not negative;
  \<open>column_sum\<close> and \<open>sheet_sum\<close> add the amounts as integers, without rounding: a month of
  one type, and all months of all types.
\<close>

definition amount_at :: "SheetRow \<Rightarrow> MonthKey \<Rightarrow> jsnum" where
  "amount_at row month = (case lookup (values' row) month of Some v \<Rightarrow> v | None \<Rightarrow> Finite 0)"

fun whole_amount :: "jsnum \<Rightarrow> bool" where
  "whole_amount (Finite x) = (0 \<le> x \<and> of_int \<lfloor>x\<rfloor> = x)"
| "whole_amount a = False"

fun amount_int :: "jsnum \<Rightarrow> int" where
  "amount_int (Finite x) = \<lfloor>x\<rfloor>"
| "amount_int a = 0"

definition whole_sheet :: "SheetRow list \<Rightarrow> bool" where
  "whole_sheet rs \<longleftrightarrow> list_all (\<lambda>row. list_all (\<lambda>m. whole_amount (amount_at row m)) MONTHS) rs"

definition column_sum :: "MonthKey \<Rightarrow> SheetRow list \<Rightarrow> CategoryType \<Rightarrow> int" where
  "column_sum month rs ty =
     sum_list (map (\<lambda>row. amount_int (amount_at row month)) (filter (\<lambda>row. type' row = ty) rs))"

definition sheet_sum :: "SheetRow list \<Rightarrow> int" where
  "sheet_sum rs =
     sum_list (map (\<lambda>m. column_sum m rs Income + column_sum m rs Expense + column_sum m rs Savings)
                 MONTHS)"

section \<open>Sample rows and a sample store\<close>

text \<open>Four rows, two of the expense rows with the same annual total.\<close>

definition sample_rows :: "SheetRow list" where
  "sample_rows =
     [\<lparr>id' = ''a'', label = ''Coffee'', type' = Expense, values' = assign Jan (Finite 5) createZeroValues\<rparr>,
      \<lparr>id' = ''b'', label = ''Pay'', type' = Income, values' = assign Jan (Finite 100) createZeroValues\<rparr>,
      \<lparr>id' = ''c'', label = ''Gym'', type' = Expense, values' = assign Mar (Finite 7) createZeroValues\<rparr>,
      \<lparr>id' = ''d'', label = ''Books'', type' = Expense, values' = assign Feb (Finite 7) createZeroValues\<rparr>]"


text \<open>Two rows with the amounts that the inputs \<^verbatim>\<open>0.1\<close>, \<^verbatim>\<open>0.2\<close> and \<^verbatim>\<open>0.3\<close> give.\<close>

definition decimal_income :: SheetRow where
  "decimal_income =
     \<lparr>id' = ''pay'', label = ''Pay'', type' = Income,
      values' = assign Dec (parseFloat ''0.2'') (assign Nov (parseFloat ''0.1'') createZeroValues)\<rparr>"

definition decimal_expense :: SheetRow where
  "decimal_expense =
     \<lparr>id' = ''rent'', label = ''Rent'', type' = Expense,
      values' = assign Nov (parseFloat ''0.3'') createZeroValues\<rparr>"

definition decimal_rows :: "SheetRow list" where
  "decimal_rows = [decimal_income, decimal_expense]"

text \<open>An income row with an amount of each infinity.\<close>

definition infinite_rows :: "SheetRow list" where
  "infinite_rows =
     [\<lparr>id' = ''pay'', label = ''Pay'', type' = Income,
        values' = [(Jan, PosInfinity), (Feb, NegInfinity)]\<rparr>]"

text \<open>Two expense rows, the first with an amount of each infinity.\<close>

definition nan_total_rows :: "SheetRow list" where
  "nan_total_rows =
     [\<lparr>id' = ''a'', label = ''A'', type' = Expense,
        values' = [(Jan, PosInfinity), (Feb, NegInfinity)]\<rparr>,
      \<lparr>id' = ''b'', label = ''B'', type' = Expense, values' = [(Jan, Finite 5)]\<rparr>]"

text \<open>
  Six texts that the store can hold, each with the value that \<^verbatim>\<open>JSON.parse\<close> returns
  for it (a number literal beyond the range of the finite numbers is read as an infinity);
  \<open>sample_parse\<close> is \<^verbatim>\<open>JSON.parse\<close> on these texts and fails on every other.
\<close>

definition corrupt_text :: string where
  \<open>corrupt_text =
     ''{"rows":[{"id":"rent","label":"Rent","type":"expense","values":{"Jan":-5}}],"currency":"USD"}''\<close>

definition overflow_text :: string where
  \<open>overflow_text =
     ''{"rows":[{"id":"pay","label":"Pay","type":"income","values":{"Jan":1e999,"Feb":-1e999}}],"currency":"USD"}''\<close>

definition nan_total_text :: string where
  \<open>nan_total_text =
     ''{"rows":[{"id":"a","label":"A","type":"expense","values":{"Jan":1e999,"Feb":-1e999}},{"id":"b","label":"B","type":"expense","values":{"Jan":5}}],"currency":"USD"}''\<close>

definition sample_store :: "(string \<times> json) list" where
  \<open>sample_store =
     [(''{"rows":[],"currency":"EUR"}'',
         JObj [(''rows'', JArr []), (''currency'', JStr ''EUR'')]),
      (''{"rows":[]}'', JObj [(''rows'', JArr [])]),
      (''null'', JNull),
      (corrupt_text,
         JObj [(''rows'', JArr [JObj [(''id'', JStr ''rent''), (''label'', JStr ''Rent''),
                                     (''type'', JStr ''expense''),
                                     (''values'', JObj [(''Jan'', JNum (Finite (- 5)))])]]),
               (''currency'', JStr ''USD'')]),
      (overflow_text,
         JObj [(''rows'', JArr [JObj [(''id'', JStr ''pay''), (''label'', JStr ''Pay''),
                                     (''type'', JStr ''income''),
                                     (''values'', JObj [(''Jan'', JNum PosInfinity),
                                                        (''Feb'', JNum NegInfinity)])]]),
               (''currency'', JStr ''USD'')]),
      (nan_total_text,
         JObj [(''rows'', JArr [JObj [(''id'', JStr ''a''), (''label'', JStr ''A''),
                                     (''type'', JStr ''expense''),
                                     (''values'', JObj [(''Jan'', JNum PosInfinity),
                                                        (''Feb'', JNum NegInfinity)])],
                                JObj [(''id'', JStr ''b''), (''label'', JStr ''B''),
                                     (''type'', JStr ''expense''),
                                     (''values'', JObj [(''Jan'', JNum (Finite 5))])]]),
               (''currency'', JStr ''USD'')])]\<close>

definition sample_parse :: "string \<Rightarrow> json option" where
  "sample_parse content = map_of sample_store content"

section \<open>Properties of the rounding\<close>

lemma ilog2_lower: 
  assumes "0 < x" shows "2 powi (ilog2 x) \<le> x"
proof (cases "1 \<le> x")
  case True
  then have pos: "0 < \<lfloor>x\<rfloor>" by linarith
  have "0 \<le> bitlen \<lfloor>x\<rfloor> - 1" using pos by (simp add: bitlen_alt_def)
  then have "(2::rat) powi (bitlen \<lfloor>x\<rfloor> - 1) = 2 ^ nat (bitlen \<lfloor>x\<rfloor> - 1)"
    by (simp add: power_int_def)
  also have "\<dots> = of_int (2 ^ nat (bitlen \<lfloor>x\<rfloor> - 1))" by simp
  also have "\<dots> \<le> of_int \<lfloor>x\<rfloor>"
    using bitlen_bounds[OF pos] by (intro of_int_le_iff[THEN iffD2]) simp
  also have "\<dots> \<le> x" by simp
  finally show ?thesis using True by (simp add: ilog2_def)
next
  case False
  define n where "n = \<lceil>1 / x\<rceil> - 1"
  have "1 < 1 / x" using False assms by (simp add: field_simps)
  then have n1: "0 < n" unfolding n_def by linarith
  have "1 / x \<le> of_int (n + 1)" unfolding n_def by simp
  also have "n + 1 \<le> 2 ^ nat (bitlen n)" using bitlen_bounds[OF n1] by simp
  then have "(of_int (n + 1) :: rat) \<le> of_int (2 ^ nat (bitlen n))"
    by (intro of_int_le_iff[THEN iffD2])
  finally have "1 / x \<le> 2 ^ nat (bitlen n)" by simp
  then have "1 / 2 ^ nat (bitlen n) \<le> x" using assms
    by (simp add: field_simps)
  moreover have "(2::rat) powi (- bitlen n) = 1 / 2 ^ nat (bitlen n)"
    using bitlen_nonneg[of n] by (simp add: power_int_def field_simps)
  ultimately show ?thesis using False by (simp add: ilog2_def n_def)
qed

lemma ilog2_upper:
  assumes "0 < x" shows "x < 2 powi (ilog2 x + 1)"
proof (cases "1 \<le> x")
  case True
  then have pos: "0 < \<lfloor>x\<rfloor>" by linarith
  have b0: "0 \<le> bitlen \<lfloor>x\<rfloor>" by (rule bitlen_nonneg)
  have "\<lfloor>x\<rfloor> + 1 \<le> 2 ^ nat (bitlen \<lfloor>x\<rfloor>)" using bitlen_bounds[OF pos] by simp
  then have "(of_int (\<lfloor>x\<rfloor> + 1) :: rat) \<le> of_int (2 ^ nat (bitlen \<lfloor>x\<rfloor>))"
    by (intro of_int_le_iff[THEN iffD2])
  moreover have "x < of_int (\<lfloor>x\<rfloor> + 1)" by simp linarith
  ultimately have "x < 2 ^ nat (bitlen \<lfloor>x\<rfloor>)" by simp
  moreover have "(2::rat) powi (bitlen \<lfloor>x\<rfloor>) = 2 ^ nat (bitlen \<lfloor>x\<rfloor>)"
    using b0 by (simp add: power_int_def)
  ultimately show ?thesis using True by (simp add: ilog2_def)
next
  case False
  define n where "n = \<lceil>1 / x\<rceil> - 1"
  have "1 < 1 / x" using False assms by (simp add: field_simps)
  then have n1: "0 < n" unfolding n_def by linarith
  have b1: "1 \<le> bitlen n" using n1 by (simp add: bitlen_alt_def)
  have "(of_int (2 ^ nat (bitlen n - 1)) :: rat) \<le> of_int n"
    using bitlen_bounds[OF n1] by (intro of_int_le_iff[THEN iffD2]) simp
  also have "of_int n < 1 / x" unfolding n_def by simp linarith
  finally have "2 ^ nat (bitlen n - 1) < 1 / x" by simp
  then have "x < 1 / 2 ^ nat (bitlen n - 1)" using assms
    by (simp add: field_simps)
  moreover have "(2::rat) powi (- bitlen n + 1) = 1 / 2 ^ nat (bitlen n - 1)"
  proof -
    have "- bitlen n + 1 = - int (nat (bitlen n - 1))" using b1 by simp
    then show ?thesis by (simp only: power_int_minus power_int_of_nat) (simp add: field_simps)
  qed
  ultimately show ?thesis using False by (simp add: ilog2_def n_def)
qed

lemma round_half_even_of_int: "round_half_even (of_int k) = k"
  by (simp add: round_half_even_def)

lemma round_half_even_bounds:
  "\<lfloor>q\<rfloor> \<le> round_half_even q" "round_half_even q \<le> \<lceil>q\<rceil>"
proof -
  show "\<lfloor>q\<rfloor> \<le> round_half_even q" by (simp add: round_half_even_def Let_def)
  have "q \<noteq> of_int \<lfloor>q\<rfloor> \<Longrightarrow> \<lceil>q\<rceil> = \<lfloor>q\<rfloor> + 1"
    by (metis ceiling_altdef of_int_floor_cancel)
  moreover have "q = of_int \<lfloor>q\<rfloor> \<Longrightarrow> round_half_even q = \<lfloor>q\<rfloor>"
    by (metis round_half_even_of_int floor_of_int)
  ultimately show "round_half_even q \<le> \<lceil>q\<rceil>"
    by (cases "q = of_int \<lfloor>q\<rfloor>") (auto simp: round_half_even_def Let_def)
qed

lemma powi2_less_imp: "(2::rat) powi a < 2 powi b \<Longrightarrow> a < b"
  by (rule ccontr) (use power_int_increasing[of b a "2::rat"] in auto)

lemma ilog2_less:
  assumes "0 < x" "x < 2 powi n" shows "ilog2 x < n"
  using ilog2_lower[OF assms(1)] assms(2) by (intro powi2_less_imp) linarith

lemma powi2_split: "(2::rat) powi j = of_int (2 ^ nat (j - e)) * 2 powi e" if "e \<le> j"
proof -
  have "(2::rat) powi j = 2 powi (int (nat (j - e)) + e)" using that by simp
  also have "\<dots> = 2 powi int (nat (j - e)) * 2 powi e" by (rule power_int_add) simp
  also have "(2::rat) powi int (nat (j - e)) = 2 ^ nat (j - e)" by (rule power_int_of_nat)
  finally show ?thesis by (simp only: of_int_power of_int_numeral)
qed

lemma rnd_exact:
  assumes x: "x = of_int k * 2 powi j" and k: "\<bar>k\<bar> < 2 ^ 53" and j: "- 1074 \<le> j" "j \<le> 971"
  shows "rnd x = Finite x"
proof (cases "x = 0")
  case True
  then show ?thesis by (simp add: rnd_def)
next
  case False
  define e where "e = max (ilog2 \<bar>x\<bar>) (- 1022) - 52"
  have "\<bar>x\<bar> = of_int \<bar>k\<bar> * 2 powi j" by (simp add: x abs_mult)
  also have "\<dots> < of_int (2 ^ 53) * 2 powi j"
    using k by (intro mult_strict_right_mono) (simp_all add: of_int_less_iff[symmetric] del: of_int_less_iff)
  also have "\<dots> = 2 powi (53 + j)" by (subst power_int_add) simp_all
  finally have "ilog2 \<bar>x\<bar> < 53 + j" using False by (intro ilog2_less) simp_all
  then have ej: "e \<le> j" using j by (simp add: e_def)
  have "x / 2 powi e = of_int (k * 2 ^ nat (j - e))"
    by (simp add: x powi2_split[OF ej])
  then have m: "round_half_even (x / 2 powi e) = k * 2 ^ nat (j - e)"
    by (simp only: round_half_even_of_int)
  have restore: "of_int (k * 2 ^ nat (j - e)) * 2 powi e = x"
    by (simp add: x powi2_split[OF ej])
  have "\<not> (971 < e \<or> (e = 971 \<and> 2 ^ 53 \<le> \<bar>k * 2 ^ nat (j - e)\<bar>))"
    using ej j k by auto
  then show ?thesis
    using False restore unfolding rnd_def Let_def e_def[symmetric] m by simp
qed

lemma rnd_grid: "rnd x = Finite y \<Longrightarrow> is_grid y"
proof -
  assume r: "rnd x = Finite y"
  define e where "e = max (ilog2 \<bar>x\<bar>) (- 1022) - 52"
  define m where "m = round_half_even (x / 2 powi e)"
  have e: "- 1074 \<le> e" by (simp add: e_def)
  show ?thesis
  proof (cases "x = 0")
    case True
    then have "y = 0" using r by (simp add: rnd_def)
    then show ?thesis by (auto simp: is_grid_def intro: exI[of _ 0])
  next
    case False
    then have "y = of_int m * 2 powi e"
      using r unfolding rnd_def Let_def e_def[symmetric] m_def[symmetric]
      by (simp split: if_splits)
    then have "y = of_int (m * 2 ^ nat (e + 1074)) * 2 powi (- 1074)"
      using powi2_split[OF e] by simp
    then show ?thesis unfolding is_grid_def by blast
  qed
qed

lemma rnd_positive:
  assumes "is_grid d" "0 < d" shows "positive (rnd d)"
proof -
  define e where "e = max (ilog2 \<bar>d\<bar>) (- 1022) - 52"
  define m where "m = round_half_even (d / 2 powi e)"
  obtain k :: int where k: "d = of_int k * 2 powi (- 1074)" using assms(1) by (auto simp: is_grid_def)
  have "0 < k" using assms(2) unfolding k by (simp add: zero_less_mult_iff)
  then have "(1::rat) \<le> of_int k" by simp
  then have dmin: "2 powi (- 1074) \<le> d" unfolding k
    by (metis mult_le_cancel_right1 not_less_iff_gr_or_eq order_less_le zero_less_numeral zero_less_power_int)
  have "2 powi e \<le> d"
  proof (cases "ilog2 \<bar>d\<bar> \<le> - 1022")
    case True
    then have "e = - 1074" by (simp add: e_def)
    then show ?thesis using dmin by simp
  next
    case False
    then have "e \<le> ilog2 d" using assms(2) by (simp add: e_def)
    then have "(2::rat) powi e \<le> 2 powi ilog2 d" by (intro power_int_increasing) simp_all
    then show ?thesis using ilog2_lower[OF assms(2)] by linarith
  qed
  then have "1 \<le> d / 2 powi e" by (simp add: field_simps)
  then have "1 \<le> \<lfloor>d / 2 powi e\<rfloor>" by linarith
  then have m1: "1 \<le> m" using round_half_even_bounds(1)[of "d / 2 powi e"] unfolding m_def by linarith
  then have "0 < of_int m * (2::rat) powi e" by (simp add: zero_less_mult_iff)
  then show ?thesis
    using assms(2) unfolding rnd_def Let_def e_def[symmetric] m_def[symmetric] by simp
qed



lemma rnd_overflow:
  assumes "2 powi 1024 \<le> x" shows "rnd x = PosInfinity"
proof -
  have "(0::rat) < 2 powi 1024" by simp
  then have pos: "0 < x" using assms by linarith
  define e where "e = max (ilog2 \<bar>x\<bar>) (- 1022) - 52"
  have "(2::rat) powi 1024 < 2 powi (ilog2 x + 1)" using assms ilog2_upper [OF pos] by linarith
  then have "1024 < ilog2 x + 1" by (rule powi2_less_imp)
  then have "971 < e" using pos by (simp add: e_def)
  then show ?thesis using pos unfolding rnd_def Let_def e_def[symmetric] by simp
qed

lemma rnd_of_int: "\<bar>k\<bar> < 2 ^ 53 \<Longrightarrow> rnd (of_int k) = Finite (of_int k)"
  using rnd_exact [of "of_int k" k 0] by simp

lemma rnd_numeral: "(numeral n :: int) < 2 ^ 53 \<Longrightarrow> rnd (numeral n) = Finite (numeral n)"
  using rnd_of_int [of "numeral n"] by simp

lemma rnd_neg_numeral: "(numeral n :: int) < 2 ^ 53 \<Longrightarrow> rnd (- numeral n) = Finite (- numeral n)"
  using rnd_of_int [of "- numeral n"] by simp

lemma round_half_even_minus: "round_half_even (- q) = - round_half_even q"
proof (cases "q = of_int \<lfloor>q\<rfloor>")
  case True
  then obtain k where "q = of_int k" ..
  then have "- q = of_int (- k)" by simp
  then show ?thesis unfolding \<open>q = of_int k\<close> by (simp only: round_half_even_of_int)
next
  case False
  then have "\<lceil>q\<rceil> = \<lfloor>q\<rfloor> + 1" by (metis ceiling_altdef)
  then have fl: "\<lfloor>- q\<rfloor> = - \<lfloor>q\<rfloor> - 1" by (simp add: floor_minus)
  have d: "0 < q - of_int \<lfloor>q\<rfloor>" using False by (metis diff_gt_0_iff_gt of_int_floor_le order_le_imp_less_or_eq)
  show ?thesis
    unfolding round_half_even_def Let_def fl by (auto simp: algebra_simps)
qed

lemma rnd_minus: "rnd (- x) = jneg (rnd x)"
proof (cases "x = 0")
  case True
  then show ?thesis by (simp add: rnd_def)
next
  case False
  define e where "e = max (ilog2 \<bar>x\<bar>) (- 1022) - 52"
  define m where "m = round_half_even (x / 2 powi e)"
  have m': "round_half_even (- x / 2 powi e) = - m"
    using round_half_even_minus [of "x / 2 powi e"] by (simp add: m_def)
  have l: "rnd (- x) = (if 971 < e \<or> (e = 971 \<and> 2 ^ 53 \<le> \<bar>m\<bar>)
              then (if 0 < - x then PosInfinity else NegInfinity)
              else Finite (of_int (- m) * 2 powi e))"
    using False unfolding rnd_def Let_def abs_minus_cancel e_def[symmetric] m' by simp
  have r: "rnd x = (if 971 < e \<or> (e = 971 \<and> 2 ^ 53 \<le> \<bar>m\<bar>)
              then (if 0 < x then PosInfinity else NegInfinity)
              else Finite (of_int m * 2 powi e))"
    using False unfolding rnd_def Let_def e_def[symmetric] m_def[symmetric] by simp
  show ?thesis unfolding l r using False by auto
qed

lemma rnd_zero: "rnd 0 = Finite 0"
  by (simp add: rnd_def)

lemma rnd_numeral_half:
  "(numeral n :: int) < 2 ^ 53 \<Longrightarrow> rnd (numeral n / 2) = Finite (numeral n / 2)"
  using rnd_exact [of "numeral n / 2" "numeral n" "- 1"] by (simp add: power_int_minus)

lemma rnd_neg_numeral_half:
  "(numeral n :: int) < 2 ^ 53 \<Longrightarrow> rnd (- (numeral n / 2)) = Finite (- (numeral n / 2))"
  using rnd_minus [of "numeral n / 2"] by (simp add: rnd_numeral_half)

lemma floor_numeral_quotient: "\<lfloor>numeral a / numeral b :: rat\<rfloor> = numeral a div numeral b"
  using floor_divide_of_int_eq [of "numeral a" "numeral b", where ?'a = rat] by simp

lemma floor_neg_numeral_quotient: "\<lfloor>- (numeral a / numeral b) :: rat\<rfloor> = - numeral a div numeral b"
  using floor_divide_of_int_eq [of "- numeral a" "numeral b", where ?'a = rat] by simp

lemmas rnd_small = rnd_zero rnd_numeral rnd_neg_numeral rnd_numeral_half rnd_neg_numeral_half
  floor_numeral_quotient floor_neg_numeral_quotient

lemma is_grid_zero: "is_grid 0"
  by (auto simp: is_grid_def intro: exI[of _ 0])

lemma is_grid_diff: "is_grid x \<Longrightarrow> is_grid y \<Longrightarrow> is_grid (y - x)"
  unfolding is_grid_def
proof -
  assume "\<exists>k::int. x = of_int k * 2 powi (- 1074)" "\<exists>k::int. y = of_int k * 2 powi (- 1074)"
  then obtain k l :: int where "x = of_int k * 2 powi (- 1074)" "y = of_int l * 2 powi (- 1074)"
    by blast
  then have "y - x = of_int (l - k) * 2 powi (- 1074)" by (simp add: algebra_simps)
  then show "\<exists>k::int. y - x = of_int k * 2 powi (- 1074)" by blast
qed

lemma rnd_on_grid: "on_grid (rnd x)"
  by (cases "rnd x") (simp_all add: rnd_grid)

lemma jadd_on_grid: "on_grid (jadd a b)"
  by (cases a; cases b) (simp_all add: rnd_on_grid)

lemma positive_jneg: "positive v \<Longrightarrow> \<not> positive (jneg v)"
  by (cases v) auto

lemma rnd_not_positive:
  assumes "is_grid d" "d \<le> 0" shows "\<not> positive (rnd d)"
proof (cases "d = 0")
  case True
  then show ?thesis by (simp add: rnd_zero)
next
  case False
  have "is_grid (- d)" using is_grid_diff [OF assms(1) is_grid_zero] by simp
  then have "positive (rnd (- d))" using assms(2) False by (intro rnd_positive) simp_all
  then have "\<not> positive (jneg (rnd (- d)))" by (rule positive_jneg)
  then show ?thesis using rnd_minus [of "- d"] by simp
qed

section \<open>Objects, rows and the template\<close>

lemma cloneRows_id: "cloneRows rs = rs"
  by (simp add: cloneRows_def)

lemma filter_assign_other: "filter (\<lambda>p. fst p \<noteq> k) (assign k v obj) = filter (\<lambda>p. fst p \<noteq> k) obj"
  by (induction obj) auto

lemma lookup_assign_same: "lookup (assign k v obj) k = Some v"
  by (induction obj) (auto simp: lookup_def)

lemma lookup_assign_other: "k' \<noteq> k \<Longrightarrow> lookup (assign k v obj) k' = lookup obj k'"
  by (induction obj) (auto simp: lookup_def)

lemma keys_assign: "map fst (assign k v obj) = (if k \<in> fst ` set obj then map fst obj else map fst obj @ [k])"
  by (induction obj) auto

lemma handleChange_rows_nth:
  "i < length (rows s) \<Longrightarrow>
   rows (handleChange rowId month val s) ! i =
     (if id' (rows s ! i) = rowId
      then (rows s ! i)\<lparr>values' := assign month (cell_amount (parseFloat val)) (values' (rows s ! i))\<rparr>
      else rows s ! i)"
  by (simp add: handleChange_def)

lemma default_ids: "map id' defaultRows = [''salary'', ''side-income'', ''rent'', ''groceries'', ''transport'', ''subscriptions'', ''emergency-fund'', ''retirement'']"
  by (simp add: defaultRows_def)

lemma initial_rows: "rows (initial stored) = defaultRows"
  by (simp add: initial_def cloneRows_id)

lemma length_defaultRows: "length defaultRows = 8"
  by (simp add: defaultRows_def)

lemma defaultRows_nth_id:
  "id' (defaultRows ! 2) = ''rent''" "id' (defaultRows ! 3) = ''groceries''"
  "label (defaultRows ! 2) = ''Housing & Rent''"
  by (simp_all add: defaultRows_def)


lemmas parse_defs = parseFloat_def is_ws_def is_digit_def digits_value_def exponent_part_def Let_def

lemma createZeroValues_eq: "createZeroValues = map (\<lambda>m. (m, Finite 0)) MONTHS"
  by (simp add: createZeroValues_def MONTHS_def)

lemma MonthKey_in_MONTHS: "m \<in> set MONTHS"
  by (cases m) (simp_all add: MONTHS_def)

lemma lookup_createZeroValues: "lookup createZeroValues m = Some (Finite 0)"
  by (cases m) (simp_all add: createZeroValues_eq MONTHS_def lookup_def)

lemma drift_even:
  "representable variation \<Longrightarrow>
   jdiv (jmul (Finite (- 1)) variation) (Finite 2) = jneg (jdiv variation (Finite 2))"
proof (cases variation)
  case (Finite v)
  assume "representable variation"
  then have "rnd v = Finite v" using Finite by simp
  then have "jmul (Finite (- 1)) variation = Finite (- v)"
    using Finite rnd_minus [of v] by simp
  then show ?thesis using Finite rnd_minus [of "v / 2"] by simp
qed (simp_all add: signed_infinity_def)

lemma drift_odd:
  "representable variation \<Longrightarrow> jdiv (jmul (Finite 1) variation) (Finite 2) = jdiv variation (Finite 2)"
  by (cases variation) (simp_all add: signed_infinity_def)

lemma indexed_months:
  "zip MONTHS [0 ..< length MONTHS] =
     [(Jan, 0), (Feb, 1), (Mar, 2), (Apr, 3), (May, 4), (Jun, 5), (Jul, 6), (Aug, 7), (Sep, 8),
      (Oct, 9), (Nov, 10), (Dec, 11)]"
  by (simp add: MONTHS_def upt_rec)

lemma createBlankValues_eq:
  "createBlankValues base variation =
     map (\<lambda>(month, index). (month, month_amount base variation index))
       (zip MONTHS [0 ..< length MONTHS])"
  unfolding createBlankValues_def indexed_months month_amount_def
  by (simp add: Let_def)


lemma month_amount_template:
  "month_amount (Finite 5500) (Finite 0) i = Finite 5500"
  "month_amount (Finite 650) (Finite 0) i = Finite 650"
  "month_amount (Finite 1850) (Finite 20) i = (if i mod 2 = 0 then Finite 1840 else Finite 1860)"
  "month_amount (Finite 580) (Finite 60) i = (if i mod 2 = 0 then Finite 550 else Finite 610)"
  "month_amount (Finite 220) (Finite 30) i = (if i mod 2 = 0 then Finite 205 else Finite 235)"
  "month_amount (Finite 95) (Finite 5) i = (if i mod 2 = 0 then Finite 93 else Finite 98)"
  "month_amount (Finite 400) (Finite 50) i = (if i mod 2 = 0 then Finite 375 else Finite 425)"
  "month_amount (Finite 650) (Finite 20) i = (if i mod 2 = 0 then Finite 640 else Finite 660)"
  by (simp_all add: month_amount_def rnd_small)

lemma defaultRows_amounts:
  "map (\<lambda>row. (label row, map snd (values' row))) defaultRows =
     [(''Primary Income'', map Finite [5500, 5500, 5500, 5500, 5500, 5500, 5500, 5500, 5500, 5500, 5500, 5500]),
      (''Side Income'', map Finite [650, 650, 650, 650, 650, 650, 650, 650, 650, 650, 650, 650]),
      (''Housing & Rent'', map Finite [1840, 1860, 1840, 1860, 1840, 1860, 1840, 1860, 1840, 1860, 1840, 1860]),
      (''Groceries'', map Finite [550, 610, 550, 610, 550, 610, 550, 610, 550, 610, 550, 610]),
      (''Transportation'', map Finite [205, 235, 205, 235, 205, 235, 205, 235, 205, 235, 205, 235]),
      (''Subscriptions'', map Finite [93, 98, 93, 98, 93, 98, 93, 98, 93, 98, 93, 98]),
      (''Emergency Fund'', map Finite [375, 425, 375, 425, 375, 425, 375, 425, 375, 425, 375, 425]),
      (''Retirement'', map Finite [640, 660, 640, 660, 640, 660, 640, 660, 640, 660, 640, 660])]"
  unfolding defaultRows_def createBlankValues_eq indexed_months
  by (simp add: month_amount_template)


lemma createBlankValues_nth:
  assumes "index < 12"
  shows "createBlankValues base variation ! index = (MONTHS ! index, month_amount base variation index)"
proof -
  have len: "length MONTHS = 12" by (simp add: MONTHS_def)
  show ?thesis
    unfolding createBlankValues_eq using assms by (simp add: len)
qed

lemma month_amount_zigzag:
  "representable variation \<Longrightarrow>
   month_amount base variation index =
     jmax (Finite 0) (jround (jadd base
       (if even index then jneg (jdiv variation (Finite 2)) else jdiv variation (Finite 2))))"
  by (simp add: month_amount_def drift_even drift_odd even_iff_mod_2_eq_zero)

lemma rent_row:
  "label (defaultRows ! 2) = ''Housing & Rent''"
  "values' (defaultRows ! 2) = createBlankValues (Finite 1850) (Finite 20)"
  by (simp_all add: defaultRows_def)

lemma rent_cells:
  "lookup (createBlankValues (Finite 1850) (Finite 20)) Jan = Some (Finite 1840)"
  "lookup (createBlankValues (Finite 1850) (Finite 20)) Feb = Some (Finite 1860)"
  unfolding createBlankValues_eq indexed_months
  by (simp_all add: lookup_def month_amount_template)

section \<open>Editing a cell\<close>

text \<open>
  Claim C2. In every row that carries the given identifier, a cell edit stores under the
  given month a finite amount that is never negative: \<open>0\<close> when the text has no decimal
  literal as a prefix (\<^verbatim>\<open>parseFloat\<close> yields \<^verbatim>\<open>NaN\<close>), \<open>0\<close> when it parses to an
  infinity, \<open>0\<close> when it parses to a negative number, and the parsed number otherwise.
\<close>

theorem handleChange_cell_value:
  "i < length (rows s) \<Longrightarrow> id' (rows s ! i) = rowId \<Longrightarrow>
   (\<exists>a. lookup (values' (rows (handleChange rowId month val s) ! i)) month = Some (Finite a) \<and>
        0 \<le> a \<and>
        (parseFloat val = NaN \<longrightarrow> a = 0) \<and>
        (parseFloat val = PosInfinity \<or> parseFloat val = NegInfinity \<longrightarrow> a = 0) \<and>
        (\<forall>x. parseFloat val = Finite x \<and> x < 0 \<longrightarrow> a = 0) \<and>
        (\<forall>x. parseFloat val = Finite x \<and> 0 \<le> x \<longrightarrow> a = x))"
proof -
  assume i: "i < length (rows s)" and rid: "id' (rows s ! i) = rowId"
  have stored: "lookup (values' (rows (handleChange rowId month val s) ! i)) month
      = Some (cell_amount (parseFloat val))"
    using i rid by (simp add: handleChange_rows_nth lookup_assign_same)
  show ?thesis
  proof (cases "parseFloat val")
    case (Finite x)
    then have "cell_amount (parseFloat val) = Finite (max x 0)" by (simp add: cell_amount_def)
    with stored Finite show ?thesis by (intro exI[of _ "max x 0"]) auto
  qed (use stored in \<open>simp_all add: cell_amount_def\<close>)
qed

theorem handleChange_cell_value_witness:
  "(2::nat) < length (rows (initial None)) \<and> id' (rows (initial None) ! 2) = ''rent'' \<and>
   parseFloat ''-5'' = Finite (- 5) \<and> parseFloat ''abc'' = NaN \<and>
   lookup (values' (rows (handleChange ''rent'' Jan ''-5'' (initial None)) ! 2)) Jan = Some (Finite 0) \<and>
   lookup (values' (rows (handleChange ''rent'' Jan ''abc'' (initial None)) ! 2)) Jan = Some (Finite 0) \<and>
   lookup (values' (rows (handleChange ''rent'' Jan ''12abc'' (initial None)) ! 2)) Jan = Some (Finite 12) \<and>
   parseFloat ''Infinity'' = PosInfinity \<and>
   lookup (values' (rows (handleChange ''rent'' Jan ''Infinity'' (initial None)) ! 2)) Jan = Some (Finite 0)"
proof -
  have i: "(2::nat) < length (rows (initial None))" by (simp add: initial_rows length_defaultRows)
  have r: "id' (rows (initial None) ! 2) = ''rent''" by (simp add: initial_rows defaultRows_nth_id)
  have p1: "parseFloat ''-5'' = Finite (- 5)" by (simp add: parse_defs rnd_neg_numeral)
  have p2: "parseFloat ''abc'' = NaN" by (simp add: parse_defs)
  have p3: "parseFloat ''12abc'' = Finite 12" by (simp add: parse_defs rnd_numeral)
  have "lookup (values' (rows (handleChange ''rent'' Jan ''-5'' (initial None)) ! 2)) Jan = Some (Finite 0)"
    using handleChange_cell_value [OF i r, of Jan "''-5''"] p1 by auto
  moreover have "lookup (values' (rows (handleChange ''rent'' Jan ''abc'' (initial None)) ! 2)) Jan = Some (Finite 0)"
    using handleChange_cell_value [OF i r, of Jan "''abc''"] p2 by auto
  moreover have "lookup (values' (rows (handleChange ''rent'' Jan ''12abc'' (initial None)) ! 2)) Jan = Some (Finite 12)"
    using handleChange_cell_value [OF i r, of Jan "''12abc''"] p3 by auto
  moreover have p4: "parseFloat ''Infinity'' = PosInfinity" by (simp add: parse_defs)
  moreover have "lookup (values' (rows (handleChange ''rent'' Jan ''Infinity'' (initial None)) ! 2)) Jan = Some (Finite 0)"
    using handleChange_cell_value [OF i r, of Jan "''Infinity''"] p4 by auto
  ultimately show ?thesis using i r p1 p2 by simp
qed

text \<open>
  Claim C10. A cell edit whose row identifier matches no row of the state changes
  nothing: the state returned by \<open>handleChange\<close> is the state it was given, rows,
  values, currency and store entry alike.
\<close>

theorem handleChange_unknown_row:
  "rowId \<notin> id' ` set (rows s) \<Longrightarrow> handleChange rowId month val s = s"
proof -
  assume "rowId \<notin> id' ` set (rows s)"
  then have "map (\<lambda>row. if id' row = rowId
                          then row\<lparr>values' := assign month (cell_amount (parseFloat val)) (values' row)\<rparr>
                          else row) (rows s) = rows s"
    by (intro map_idI) auto
  then show ?thesis by (simp add: handleChange_def)
qed

theorem handleChange_unknown_row_witness:
  "''bonus'' \<notin> id' ` set (rows (initial None)) \<and>
   handleChange ''bonus'' Mar ''120'' (initial None) = initial None"
proof -
  have "id' ` set (rows (initial None)) = set (map id' defaultRows)"
    by (simp add: initial_def cloneRows_id)
  then have h: "''bonus'' \<notin> id' ` set (rows (initial None))"
    by (simp add: default_ids)
  show ?thesis using h handleChange_unknown_row [OF h] by simp
qed


text \<open>
  Claim C3. A cell edit keeps the number and the order of the rows, the currency and the
  store entry. At every position the row keeps its identifier, label and type, and the
  entries of its values under every month other than the edited one, in their order; a
  row with another identifier is unchanged altogether.
\<close>

theorem handleChange_frame:
  "length (rows (handleChange rowId month val s)) = length (rows s) \<and>
   currency (handleChange rowId month val s) = currency s \<and>
   storage (handleChange rowId month val s) = storage s \<and>
   (\<forall>i < length (rows s).
      id' (rows (handleChange rowId month val s) ! i) = id' (rows s ! i) \<and>
      label (rows (handleChange rowId month val s) ! i) = label (rows s ! i) \<and>
      type' (rows (handleChange rowId month val s) ! i) = type' (rows s ! i) \<and>
      filter (\<lambda>p. fst p \<noteq> month) (values' (rows (handleChange rowId month val s) ! i)) =
        filter (\<lambda>p. fst p \<noteq> month) (values' (rows s ! i)) \<and>
      (\<forall>m. m \<noteq> month \<longrightarrow>
         lookup (values' (rows (handleChange rowId month val s) ! i)) m = lookup (values' (rows s ! i)) m) \<and>
      (id' (rows s ! i) \<noteq> rowId \<longrightarrow> rows (handleChange rowId month val s) ! i = rows s ! i))"
proof -
  have "length (rows (handleChange rowId month val s)) = length (rows s)"
    and "currency (handleChange rowId month val s) = currency s"
    and "storage (handleChange rowId month val s) = storage s"
    by (simp_all add: handleChange_def)
  then show ?thesis
    by (simp add: handleChange_rows_nth filter_assign_other lookup_assign_other)
qed


theorem handleChange_frame_witness:
  "(2::nat) < length (rows (initial None)) \<and> (3::nat) < length (rows (initial None)) \<and>
   Jan \<noteq> Feb \<and> id' (rows (initial None) ! 3) \<noteq> ''rent'' \<and>
   label (rows (handleChange ''rent'' Feb ''75'' (initial None)) ! 2) = ''Housing & Rent'' \<and>
   lookup (values' (rows (handleChange ''rent'' Feb ''75'' (initial None)) ! 2)) Jan =
     lookup (values' (rows (initial None) ! 2)) Jan \<and>
   rows (handleChange ''rent'' Feb ''75'' (initial None)) ! 3 = rows (initial None) ! 3"
proof -
  have len: "(2::nat) < length (rows (initial None))" "(3::nat) < length (rows (initial None))"
    by (simp_all add: initial_rows length_defaultRows)
  have other: "id' (rows (initial None) ! 3) \<noteq> ''rent''"
    by (simp add: initial_rows defaultRows_nth_id)
  have all: "\<forall>i < length (rows (initial None)).
      id' (rows (handleChange ''rent'' Feb ''75'' (initial None)) ! i) = id' (rows (initial None) ! i) \<and>
      label (rows (handleChange ''rent'' Feb ''75'' (initial None)) ! i) = label (rows (initial None) ! i) \<and>
      type' (rows (handleChange ''rent'' Feb ''75'' (initial None)) ! i) = type' (rows (initial None) ! i) \<and>
      filter (\<lambda>p. fst p \<noteq> Feb) (values' (rows (handleChange ''rent'' Feb ''75'' (initial None)) ! i)) =
        filter (\<lambda>p. fst p \<noteq> Feb) (values' (rows (initial None) ! i)) \<and>
      (\<forall>m. m \<noteq> Feb \<longrightarrow>
         lookup (values' (rows (handleChange ''rent'' Feb ''75'' (initial None)) ! i)) m =
           lookup (values' (rows (initial None) ! i)) m) \<and>
      (id' (rows (initial None) ! i) \<noteq> ''rent'' \<longrightarrow>
         rows (handleChange ''rent'' Feb ''75'' (initial None)) ! i = rows (initial None) ! i)"
    using handleChange_frame [of "''rent''" Feb "''75''" "initial None"] by blast
  have "label (rows (handleChange ''rent'' Feb ''75'' (initial None)) ! 2) = ''Housing & Rent''"
    using all len(1) by (simp add: initial_rows defaultRows_nth_id)
  moreover have "lookup (values' (rows (handleChange ''rent'' Feb ''75'' (initial None)) ! 2)) Jan =
     lookup (values' (rows (initial None) ! 2)) Jan"
    using all len(1) by blast
  moreover have "rows (handleChange ''rent'' Feb ''75'' (initial None)) ! 3 = rows (initial None) ! 3"
    using all len(2) other by blast
  ultimately show ?thesis using len other by simp
qed

section \<open>Adding a row\<close>

text \<open>
  Claim C5. When the prompt is cancelled or answered with the empty text, \<open>addRow\<close>
  returns the state unchanged. Otherwise the rows of the result are the rows of the
  state followed by one new row of the given type, whose values are \<open>0\<close> under each of
  the twelve months; currency and store entry stay as they are.
\<close>

theorem addRow_appends:
  "(answer = None \<or> answer = Some [] \<longrightarrow> addRow ty answer fresh s = s) \<and>
   (\<forall>lbl. answer = Some lbl \<and> lbl \<noteq> [] \<longrightarrow>
      rows (addRow ty answer fresh s) =
        rows s @ [\<lparr>id' = fresh, label = trim lbl, type' = ty, values' = createZeroValues\<rparr>] \<and>
      currency (addRow ty answer fresh s) = currency s \<and>
      storage (addRow ty answer fresh s) = storage s) \<and>
   map fst createZeroValues = MONTHS \<and> length MONTHS = 12 \<and>
   (\<forall>m. lookup createZeroValues m = Some (Finite 0))"
  by (auto simp: addRow_def createZeroValues_eq[THEN arg_cong, of "map fst"] comp_def
        lookup_createZeroValues MONTHS_def)

theorem addRow_appends_witness:
  "addRow Expense (Some '''') ''V1StGXR8'' (initial None) = initial None \<and>
   addRow Expense None ''V1StGXR8'' (initial None) = initial None \<and>
   rows (addRow Expense (Some ''Gym '') ''V1StGXR8'' (initial None)) =
     rows (initial None) @ [\<lparr>id' = ''V1StGXR8'', label = ''Gym'', type' = Expense, values' = createZeroValues\<rparr>] \<and>
   length (rows (addRow Expense (Some '''') ''V1StGXR8'' (initial None))) = length (rows (initial None)) \<and>
   lookup createZeroValues Aug = Some (Finite 0)"
proof -
  have t: "trim ''Gym '' = ''Gym''" by (simp add: trim_def is_ws_def)
  have "addRow Expense (Some '''') ''V1StGXR8'' (initial None) = initial None"
    using addRow_appends [of "Some ''''" Expense "''V1StGXR8''" "initial None"] by simp
  moreover have "addRow Expense None ''V1StGXR8'' (initial None) = initial None"
    using addRow_appends [of None Expense "''V1StGXR8''" "initial None"] by simp
  moreover have "rows (addRow Expense (Some ''Gym '') ''V1StGXR8'' (initial None)) =
     rows (initial None) @ [\<lparr>id' = ''V1StGXR8'', label = ''Gym'', type' = Expense, values' = createZeroValues\<rparr>]"
    using addRow_appends [of "Some ''Gym ''" Expense "''V1StGXR8''" "initial None"] t by simp
  moreover have "lookup createZeroValues Aug = Some (Finite 0)"
    using addRow_appends [of None Expense "''V1StGXR8''" "initial None"] by blast
  ultimately show ?thesis by simp
qed

section \<open>Resetting to the template\<close>

text \<open>
  Claim C7. From every state a confirmed reset yields the default template as rows and
  the currency \<^verbatim>\<open>USD\<close>. The template has eight rows. Each of its values at the 0-based
  month index \<open>i\<close> is \<open>max(0, round(base + drift))\<close> with drift \<open>-(variation / 2)\<close> for even
  \<open>i\<close> and \<open>variation / 2\<close> for odd \<open>i\<close>; the amounts of the eight rows are the ones listed,
  and the row labelled Housing & Rent (base 1850, variation 20) has 1840 in January and
  1860 in February. The store is not cleared: the handler removes the entry, and the
  second effect, which runs after the render because \<^verbatim>\<open>rows\<close> is a new array, writes the
  template state under the key again. Once the reset is over the store holds that text,
  where the claim says that it is empty.
\<close>

theorem reset_template:
  "reset True s = \<lparr>rows = defaultRows, currency = ''USD'', storage = None\<rparr> \<and>
   after_reset True stringify s =
     \<lparr>rows = defaultRows, currency = ''USD'',
      storage = Some (stringify \<lparr>rows = defaultRows, currency = ''USD''\<rparr>)\<rparr> \<and>
   storage (after_reset True stringify s) \<noteq> None \<and>
   length defaultRows = 8 \<and>
   (\<forall>base variation index. representable variation \<and> index < 12 \<longrightarrow>
      createBlankValues base variation ! index =
        (MONTHS ! index,
         jmax (Finite 0) (jround (jadd base
           (if even index then jneg (jdiv variation (Finite 2)) else jdiv variation (Finite 2)))))) \<and>
   map (\<lambda>row. (label row, map snd (values' row))) defaultRows =
     [(''Primary Income'', map Finite [5500, 5500, 5500, 5500, 5500, 5500, 5500, 5500, 5500, 5500, 5500, 5500]),
      (''Side Income'', map Finite [650, 650, 650, 650, 650, 650, 650, 650, 650, 650, 650, 650]),
      (''Housing & Rent'', map Finite [1840, 1860, 1840, 1860, 1840, 1860, 1840, 1860, 1840, 1860, 1840, 1860]),
      (''Groceries'', map Finite [550, 610, 550, 610, 550, 610, 550, 610, 550, 610, 550, 610]),
      (''Transportation'', map Finite [205, 235, 205, 235, 205, 235, 205, 235, 205, 235, 205, 235]),
      (''Subscriptions'', map Finite [93, 98, 93, 98, 93, 98, 93, 98, 93, 98, 93, 98]),
      (''Emergency Fund'', map Finite [375, 425, 375, 425, 375, 425, 375, 425, 375, 425, 375, 425]),
      (''Retirement'', map Finite [640, 660, 640, 660, 640, 660, 640, 660, 640, 660, 640, 660])] \<and>
   label (defaultRows ! 2) = ''Housing & Rent'' \<and>
   values' (defaultRows ! 2) = createBlankValues (Finite 1850) (Finite 20) \<and>
   lookup (values' (defaultRows ! 2)) Jan = Some (Finite 1840) \<and>
   lookup (values' (defaultRows ! 2)) Feb = Some (Finite 1860)"
proof -
  have handler: "reset True s = \<lparr>rows = defaultRows, currency = ''USD'', storage = None\<rparr>"
    by (simp add: reset_def cloneRows_id)
  have settled: "after_reset True stringify s =
     \<lparr>rows = defaultRows, currency = ''USD'',
      storage = Some (stringify \<lparr>rows = defaultRows, currency = ''USD''\<rparr>)\<rparr>"
    by (simp add: after_reset_def save_effect_def handler)
  have written: "storage (after_reset True stringify s) \<noteq> None"
    by (simp add: settled)
  have zigzag: "\<forall>base variation index. representable variation \<and> index < 12 \<longrightarrow>
      createBlankValues base variation ! index =
        (MONTHS ! index,
         jmax (Finite 0) (jround (jadd base
           (if even index then jneg (jdiv variation (Finite 2)) else jdiv variation (Finite 2)))))"
    using createBlankValues_nth month_amount_zigzag by simp
  from handler settled written zigzag show ?thesis
    using length_defaultRows defaultRows_amounts rent_row rent_cells by simp
qed

theorem reset_template_witness:
  "representable (Finite 20) \<and> (0::nat) < 12 \<and> (1::nat) < 12 \<and>
   createBlankValues (Finite 1850) (Finite 20) ! 0 = (Jan, Finite 1840) \<and>
   createBlankValues (Finite 1850) (Finite 20) ! 1 = (Feb, Finite 1860) \<and>
   rows (reset True (handleChange ''rent'' Jan ''1'' (initial (Some ''{}'')))) = defaultRows \<and>
   storage (reset True (handleChange ''rent'' Jan ''1'' (initial (Some ''{}'')))) = None"
proof -
  have r: "representable (Finite 20)" by (simp add: rnd_small)
  have rule: "\<And>index. index < 12 \<Longrightarrow> createBlankValues (Finite 1850) (Finite 20) ! index =
        (MONTHS ! index,
         jmax (Finite 0) (jround (jadd (Finite 1850)
           (if even index then jneg (jdiv (Finite 20) (Finite 2)) else jdiv (Finite 20) (Finite 2)))))"
    using reset_template [of "initial None"] r by blast
  have "createBlankValues (Finite 1850) (Finite 20) ! 0 = (Jan, Finite 1840)"
    using rule [of 0] by (simp add: MONTHS_def rnd_small)
  moreover have "createBlankValues (Finite 1850) (Finite 20) ! 1 = (Feb, Finite 1860)"
    using rule [of 1] by (simp add: MONTHS_def rnd_small)
  moreover have "reset True (handleChange ''rent'' Jan ''1'' (initial (Some ''{}''))) =
      \<lparr>rows = defaultRows, currency = ''USD'', storage = None\<rparr>"
    using reset_template [of "handleChange ''rent'' Jan ''1'' (initial (Some ''{}''))"] by blast
  ultimately show ?thesis using r by simp
qed

section \<open>The aggregates unfolded\<close>

lemma monthlyTotals_eq:
  "monthlyTotals rs =
     \<lparr>income = map (\<lambda>m. (m, totalFor m rs Income)) MONTHS,
      expense = map (\<lambda>m. (m, totalFor m rs Expense)) MONTHS,
      savings = map (\<lambda>m. (m, totalFor m rs Savings)) MONTHS,
      net = map (\<lambda>m. (m, jsub (jsub (totalFor m rs Income) (totalFor m rs Expense))
                             (totalFor m rs Savings))) MONTHS\<rparr>"
  unfolding monthlyTotals_def createZeroValues_eq MONTHS_def
  by (simp add: Let_def)

lemma sumRecord_map:
  "sumRecord (map (\<lambda>m. (m, f m)) ms) = foldl jadd (Finite 0) (map f ms)"
  by (simp add: sumRecord_def comp_def)

lemma annualTotals_eq:
  "annualTotals rs =
     \<lparr>income = foldl jadd (Finite 0) (map (\<lambda>m. totalFor m rs Income) MONTHS),
      expense = foldl jadd (Finite 0) (map (\<lambda>m. totalFor m rs Expense) MONTHS),
      savings = foldl jadd (Finite 0) (map (\<lambda>m. totalFor m rs Savings) MONTHS),
      net = foldl jadd (Finite 0)
              (map (\<lambda>m. jsub (jsub (totalFor m rs Income) (totalFor m rs Expense))
                             (totalFor m rs Savings)) MONTHS)\<rparr>"
  by (simp add: annualTotals_def monthlyTotals_eq sumRecord_map Let_def)

lemma template_values:
  "map values' defaultRows =
     map (\<lambda>amounts. zip MONTHS (map Finite amounts))
      [[5500, 5500, 5500, 5500, 5500, 5500, 5500, 5500, 5500, 5500, 5500, 5500],
       [650, 650, 650, 650, 650, 650, 650, 650, 650, 650, 650, 650],
       [1840, 1860, 1840, 1860, 1840, 1860, 1840, 1860, 1840, 1860, 1840, 1860],
       [550, 610, 550, 610, 550, 610, 550, 610, 550, 610, 550, 610],
       [205, 235, 205, 235, 205, 235, 205, 235, 205, 235, 205, 235],
       [93, 98, 93, 98, 93, 98, 93, 98, 93, 98, 93, 98],
       [375, 425, 375, 425, 375, 425, 375, 425, 375, 425, 375, 425],
       [640, 660, 640, 660, 640, 660, 640, 660, 640, 660, 640, 660]]"
  unfolding defaultRows_def createBlankValues_eq indexed_months
  by (simp add: month_amount_template MONTHS_def)

lemma template_monthly:
  "map (\<lambda>m. totalFor m defaultRows Income) MONTHS = map Finite [6150, 6150, 6150, 6150, 6150, 6150, 6150, 6150, 6150, 6150, 6150, 6150]"
  "map (\<lambda>m. totalFor m defaultRows Savings) MONTHS = map Finite [1015, 1085, 1015, 1085, 1015, 1085, 1015, 1085, 1015, 1085, 1015, 1085]"
  using template_values
  by (simp_all add: defaultRows_def totalFor_def lookup_def MONTHS_def rnd_small)


lemma template_annual:
  "income (annualTotals defaultRows) = Finite 73800"
  "savings (annualTotals defaultRows) = Finite 12600"
  by (simp_all add: annualTotals_eq template_monthly rnd_small)

lemma template_rate:
  "jmul (jdiv (Finite 12600) (Finite 73800)) (Finite 100) = Finite (4805670334084371 / 281474976710656)"
  by code_simp

section \<open>Savings rate\<close>

text \<open>
  Claim C8. The savings rate is \<open>0\<close> when the annual income is \<open>0\<close> and when it is
  \<^verbatim>\<open>NaN\<close>; when it is any other number the rate is the annual savings divided by the
  annual income, times \<open>100\<close>, each operation rounded as the program computes it. The
  function is total: no division by zero is raised. The claim as stated, the quotient for
  every income other than \<open>0\<close>, fails where the annual income is \<^verbatim>\<open>NaN\<close>: the rate is
  \<open>0\<close> there and the quotient is \<^verbatim>\<open>NaN\<close>.
\<close>

theorem savingsRate_cases:
  "(income (annualTotals rs) = Finite 0 \<longrightarrow> savingsRate rs = Finite 0) \<and>
   (income (annualTotals rs) \<noteq> Finite 0 \<and> income (annualTotals rs) \<noteq> NaN \<longrightarrow>
      savingsRate rs =
        jmul (jdiv (savings (annualTotals rs)) (income (annualTotals rs))) (Finite 100)) \<and>
   (income (annualTotals rs) = NaN \<longrightarrow> savingsRate rs = Finite 0)"
  by (cases "income (annualTotals rs)") (simp_all add: savingsRate_def Let_def)

theorem savingsRate_cases_witness:
  "income (annualTotals defaultRows) \<noteq> Finite 0 \<and> income (annualTotals defaultRows) \<noteq> NaN \<and>
   savingsRate defaultRows = Finite (4805670334084371 / 281474976710656) \<and>
   income (annualTotals []) = Finite 0 \<and> savingsRate [] = Finite 0"
proof -
  have nz: "income (annualTotals defaultRows) \<noteq> Finite 0 \<and> income (annualTotals defaultRows) \<noteq> NaN"
    by (simp add: template_annual)
  have "savingsRate defaultRows =
      jmul (jdiv (savings (annualTotals defaultRows)) (income (annualTotals defaultRows))) (Finite 100)"
    using savingsRate_cases [of defaultRows] nz by blast
  then have "savingsRate defaultRows = Finite (4805670334084371 / 281474976710656)"
    unfolding template_annual template_rate .
  moreover have z: "income (annualTotals []) = Finite 0"
    by (simp add: annualTotals_eq totalFor_def MONTHS_def rnd_zero)
  moreover have "savingsRate [] = Finite 0"
    using savingsRate_cases [of "[]"] z by blast
  ultimately show ?thesis using nz by simp
qed

text \<open>
  An annual income of \<^verbatim>\<open>NaN\<close> takes amounts of both infinities in income rows, as in
  the rows that the effect restores from the text with \<^verbatim>\<open>1e999\<close> and \<^verbatim>\<open>-1e999\<close>.
\<close>

lemma restore_overflow: "restore sample_parse (Some overflow_text) = Restored infinite_rows ''USD''"
proof -
  have "overflow_text \<noteq> []" by (simp add: overflow_text_def)
  moreover have "sample_parse overflow_text =
     Some (JObj [(''rows'', JArr [JObj [(''id'', JStr ''pay''), (''label'', JStr ''Pay''),
                                     (''type'', JStr ''income''),
                                     (''values'', JObj [(''Jan'', JNum PosInfinity),
                                                        (''Feb'', JNum NegInfinity)])]]),
               (''currency'', JStr ''USD'')])"
    by (simp add: sample_parse_def sample_store_def corrupt_text_def overflow_text_def nan_total_text_def)
  ultimately show ?thesis
    by (simp add: restore_def restore_parsed_def read_prop_def asSheetRow_def
        asCategoryType_def asMonthKey_def cloneRows_id infinite_rows_def)
qed

lemma infinite_monthly:
  "map (\<lambda>m. totalFor m infinite_rows Income) MONTHS =
     [PosInfinity, NegInfinity, Finite 0, Finite 0, Finite 0, Finite 0, Finite 0, Finite 0,
      Finite 0, Finite 0, Finite 0, Finite 0]"
  "map (\<lambda>m. totalFor m infinite_rows Savings) MONTHS =
     [Finite 0, Finite 0, Finite 0, Finite 0, Finite 0, Finite 0, Finite 0, Finite 0,
      Finite 0, Finite 0, Finite 0, Finite 0]"
  by (simp_all add: infinite_rows_def totalFor_def lookup_def MONTHS_def rnd_zero)

lemma infinite_annual:
  "income (annualTotals infinite_rows) = NaN"
  "savings (annualTotals infinite_rows) = Finite 0"
  by (simp_all add: annualTotals_eq infinite_monthly rnd_zero)

theorem savingsRate_counterexample:
  "income (annualTotals infinite_rows) = NaN \<and>
   income (annualTotals infinite_rows) \<noteq> Finite 0 \<and>
   savingsRate infinite_rows = Finite 0 \<and>
   jmul (jdiv (savings (annualTotals infinite_rows)) (income (annualTotals infinite_rows))) (Finite 100) = NaN \<and>
   savingsRate infinite_rows \<noteq>
     jmul (jdiv (savings (annualTotals infinite_rows)) (income (annualTotals infinite_rows))) (Finite 100)"
  by (simp add: savingsRate_def infinite_annual)

section \<open>Loading the persisted state\<close>

lemma truthy_defined: "truthy v \<Longrightarrow> v \<noteq> None"
  by (cases v) simp_all

lemma restore_parsed_missing:
  "read_prop parsed ''rows'' = None \<or> read_prop parsed ''currency'' = None \<Longrightarrow>
   restore_parsed parsed = Skipped \<or> restore_parsed parsed = Warned"
  by (auto simp: restore_parsed_def)

lemma restore_parsed_replaces:
  assumes "replaces_state (restore_parsed parsed)"
  shows "read_prop parsed ''rows'' \<noteq> None \<and> read_prop parsed ''currency'' \<noteq> None"
proof -
  have "truthy (read_prop parsed ''rows'') \<and> truthy (read_prop parsed ''currency'')"
    using assms by (auto simp: restore_parsed_def split: if_splits)
  then show ?thesis using truthy_defined by blast
qed

text \<open>A row stored without its \<^verbatim>\<open>values\<close> field is restored with no values.\<close>

lemma asSheetRow_without_values:
  "asSheetRow (JObj [(''id'', JStr ''a''), (''label'', JStr ''A''), (''type'', JStr ''expense'')]) =
     Some \<lparr>id' = ''a'', label = ''A'', type' = Expense, values' = []\<rparr>"
  by (simp add: asSheetRow_def read_prop_def asCategoryType_def)

text \<open>
  Claim C9. Whatever the store holds, the restoring effect ends with one of its four
  outcomes and raises nothing. With the key absent it leaves the state alone. With a
  text that \<^verbatim>\<open>JSON.parse\<close> rejects it leaves the state alone, and logs a warning
  unless the text is empty: an empty text is not parsed and is skipped silently, which
  is where the claim as stated, a warning for every value that is not valid, fails. With a
  parsed value that lacks the \<^verbatim>\<open>rows\<close> field or the \<^verbatim>\<open>currency\<close> field it leaves the
  state alone. The state is replaced only when the store holds a text that parses to a
  value with both fields.
\<close>

theorem restore_tolerant:
  "restore JSON_parse None = Skipped \<and>
   (\<forall>content. JSON_parse content = None \<longrightarrow>
      restore JSON_parse (Some content) = (if content = [] then Skipped else Warned)) \<and>
   (\<forall>content parsed. JSON_parse content = Some parsed \<and>
        (read_prop parsed ''rows'' = None \<or> read_prop parsed ''currency'' = None) \<longrightarrow>
      restore JSON_parse (Some content) = Skipped \<or> restore JSON_parse (Some content) = Warned) \<and>
   (replaces_state (restore JSON_parse raw) \<longrightarrow>
      (\<exists>content parsed. raw = Some content \<and> JSON_parse content = Some parsed \<and>
         read_prop parsed ''rows'' \<noteq> None \<and> read_prop parsed ''currency'' \<noteq> None))"
proof -
  have a: "restore JSON_parse None = Skipped" by (simp add: restore_def)
  have b: "\<forall>content. JSON_parse content = None \<longrightarrow>
      restore JSON_parse (Some content) = (if content = [] then Skipped else Warned)"
    by (simp add: restore_def)
  have c: "\<forall>content parsed. JSON_parse content = Some parsed \<and>
        (read_prop parsed ''rows'' = None \<or> read_prop parsed ''currency'' = None) \<longrightarrow>
      restore JSON_parse (Some content) = Skipped \<or> restore JSON_parse (Some content) = Warned"
  proof (intro allI impI)
    fix content parsed
    assume h: "JSON_parse content = Some parsed \<and>
        (read_prop parsed ''rows'' = None \<or> read_prop parsed ''currency'' = None)"
    then have "restore JSON_parse (Some content) = Skipped \<or>
        restore JSON_parse (Some content) = restore_parsed parsed"
      by (simp add: restore_def)
    then show "restore JSON_parse (Some content) = Skipped \<or> restore JSON_parse (Some content) = Warned"
      using restore_parsed_missing [of parsed] h by auto
  qed
  have d: "replaces_state (restore JSON_parse raw) \<longrightarrow>
      (\<exists>content parsed. raw = Some content \<and> JSON_parse content = Some parsed \<and>
         read_prop parsed ''rows'' \<noteq> None \<and> read_prop parsed ''currency'' \<noteq> None)"
  proof
    assume r: "replaces_state (restore JSON_parse raw)"
    then obtain content where t: "raw = Some content" "content \<noteq> []"
      by (cases raw) (auto simp: restore_def split: if_splits)
    then obtain parsed where p: "JSON_parse content = Some parsed"
      using r by (cases "JSON_parse content") (auto simp: restore_def)
    then have "replaces_state (restore_parsed parsed)"
      using r t by (simp add: restore_def)
    then show "\<exists>content parsed. raw = Some content \<and> JSON_parse content = Some parsed \<and>
         read_prop parsed ''rows'' \<noteq> None \<and> read_prop parsed ''currency'' \<noteq> None"
      using restore_parsed_replaces t p by blast
  qed
  from a b c d show ?thesis by blast
qed

lemma sample_parse_values:
  \<open>sample_parse ''not json'' = None\<close>
  \<open>sample_parse ''{"rows":[]}'' = Some (JObj [(''rows'', JArr [])])\<close>
  \<open>sample_parse ''{"rows":[],"currency":"EUR"}'' =
     Some (JObj [(''rows'', JArr []), (''currency'', JStr ''EUR'')])\<close>
  by (simp_all add: sample_parse_def sample_store_def corrupt_text_def overflow_text_def nan_total_text_def)

theorem restore_tolerant_witness:
  \<open>sample_parse ''not json'' = None \<and>
   restore sample_parse (Some ''not json'') = Warned \<and>
   sample_parse ''{"rows":[]}'' = Some (JObj [(''rows'', JArr [])]) \<and>
   read_prop (JObj [(''rows'', JArr [])]) ''currency'' = None \<and>
   restore sample_parse (Some ''{"rows":[]}'') = Skipped \<and>
   restore sample_parse (Some ''{"rows":[],"currency":"EUR"}'') = Restored [] ''EUR'' \<and>
   replaces_state (restore sample_parse (Some ''{"rows":[],"currency":"EUR"}'')) \<and>
   read_prop (JObj [(''rows'', JArr []), (''currency'', JStr ''EUR'')]) ''currency'' \<noteq> None\<close>
proof -
  have w: \<open>restore sample_parse (Some ''not json'') = Warned\<close>
    using restore_tolerant [of sample_parse] sample_parse_values(1) by auto
  have m: \<open>read_prop (JObj [(''rows'', JArr [])]) ''currency'' = None\<close>
    by (simp add: read_prop_def)
  have \<open>restore sample_parse (Some ''{"rows":[]}'') = Skipped \<or>
        restore sample_parse (Some ''{"rows":[]}'') = Warned\<close>
    using restore_tolerant [of sample_parse] sample_parse_values(2) m by blast
  moreover have \<open>restore sample_parse (Some ''{"rows":[]}'') \<noteq> Warned\<close>
    by (simp add: restore_def sample_parse_values restore_parsed_def read_prop_def)
  ultimately have s: \<open>restore sample_parse (Some ''{"rows":[]}'') = Skipped\<close> by blast
  have r: \<open>restore sample_parse (Some ''{"rows":[],"currency":"EUR"}'') = Restored [] ''EUR''\<close>
    by (simp add: restore_def sample_parse_values restore_parsed_def read_prop_def cloneRows_def)
  then have rs: \<open>replaces_state (restore sample_parse (Some ''{"rows":[],"currency":"EUR"}''))\<close>
    by simp
  have \<open>\<exists>content parsed. Some ''{"rows":[],"currency":"EUR"}'' = Some content \<and>
          sample_parse content = Some parsed \<and>
          read_prop parsed ''rows'' \<noteq> None \<and> read_prop parsed ''currency'' \<noteq> None\<close>
    using restore_tolerant [of sample_parse \<open>Some ''{"rows":[],"currency":"EUR"}''\<close>] rs by blast
  then have \<open>read_prop (JObj [(''rows'', JArr []), (''currency'', JStr ''EUR'')]) ''currency'' \<noteq> None\<close>
    by (auto simp: sample_parse_values)
  with w m s r rs show ?thesis by (simp add: sample_parse_values)
qed

theorem restore_empty_counterexample:
  "sample_parse '''' = None \<and> restore sample_parse (Some '''') = Skipped \<and>
   restore sample_parse (Some '''') \<noteq> Warned"
  by (simp add: restore_def sample_parse_def sample_store_def corrupt_text_def overflow_text_def nan_total_text_def)

section \<open>Largest expense\<close>

lemma sumRecord_on_grid: "on_grid (sumRecord vs)"
proof (cases vs rule: rev_cases)
  case Nil
  then show ?thesis by (simp add: sumRecord_def is_grid_zero)
next
  case (snoc ws w)
  then show ?thesis by (simp add: sumRecord_def jadd_on_grid)
qed

lemma comparator_sign:
  assumes "a \<noteq> NaN" "b \<noteq> NaN" "on_grid a" "on_grid b"
  shows "positive (jsub b a) = jless a b"
proof (cases a; cases b)
  fix x y assume ab: "a = Finite x" "b = Finite y"
  then have g: "is_grid (y - x)" using assms(3,4) by (simp add: is_grid_diff)
  show ?thesis
  proof (cases "x < y")
    case True
    then show ?thesis using ab g rnd_positive [of "y - x"] by (simp add: jsub_def)
  next
    case False
    then show ?thesis using ab g rnd_not_positive [of "y - x"] by (simp add: jsub_def)
  qed
qed (use assms in \<open>simp_all add: jsub_def\<close>)


lemma insert_sorted_nonempty: "insert_sorted cmp a bs \<noteq> []"
  by (cases bs) simp_all

lemma hd_insert_sorted:
  "hd (insert_sorted cmp a bs) = (if bs \<noteq> [] \<and> positive (cmp a (hd bs)) then hd bs else a)"
  by (cases bs) simp_all

lemma sort_by_Cons: "sort_by cmp (x # xs) = insert_sorted cmp x (sort_by cmp xs)"
  by (simp add: sort_by_def)

lemma sort_by_empty: "sort_by cmp xs = [] \<longleftrightarrow> xs = []"
  by (cases xs) (simp_all add: sort_by_def insert_sorted_nonempty)

lemma jle_trans: "jle a b \<Longrightarrow> jle b c \<Longrightarrow> jle a c"
  by (cases a; cases b; cases c) (simp_all add: jle_def)

lemma jless_imp_jle: "jless a b \<Longrightarrow> jle a b"
  by (cases a; cases b) (simp_all add: jle_def)

lemma jle_refl: "a \<noteq> NaN \<Longrightarrow> jle a a"
  by (cases a) (simp_all add: jle_def)

text \<open>The head of the sorted list is the first element with a maximal key.\<close>

lemma hd_sort_by_first_max:
  fixes xs :: "('a \<times> jsnum) list"
  assumes "xs \<noteq> []" "\<forall>p \<in> set xs. snd p \<noteq> NaN \<and> on_grid (snd p)"
  shows "\<exists>i < length xs. hd (sort_by (\<lambda>a b. jsub (snd b) (snd a)) xs) = xs ! i \<and>
           (\<forall>j < length xs. jle (snd (xs ! j)) (snd (xs ! i))) \<and>
           (\<forall>j < i. jless (snd (xs ! j)) (snd (xs ! i)))"
  using assms
proof (induction xs)
  case Nil
  then show ?case by simp
next
  case (Cons x xs)
  let ?cmp = "\<lambda>a b :: 'a \<times> jsnum. jsub (snd b) (snd a)"
  show ?case
  proof (cases "xs = []")
    case True
    then show ?thesis using Cons.prems by (simp add: sort_by_def jle_refl)
  next
    case False
    then obtain i where i: "i < length xs" "hd (sort_by ?cmp xs) = xs ! i"
        "\<forall>j < length xs. jle (snd (xs ! j)) (snd (xs ! i))"
        "\<forall>j < i. jless (snd (xs ! j)) (snd (xs ! i))"
      using Cons by auto
    have ok: "snd x \<noteq> NaN" "on_grid (snd x)" "snd (xs ! i) \<noteq> NaN" "on_grid (snd (xs ! i))"
      using Cons.prems(2) i(1) by auto
    have sign: "positive (?cmp x (xs ! i)) = jless (snd x) (snd (xs ! i))"
      using comparator_sign [OF ok(1) ok(3) ok(2) ok(4)] by simp
    have hd: "hd (sort_by ?cmp (x # xs)) = (if jless (snd x) (snd (xs ! i)) then xs ! i else x)"
      using False i(2) sign by (simp add: sort_by_Cons hd_insert_sorted sort_by_empty)
    show ?thesis
    proof (cases "jless (snd x) (snd (xs ! i))")
      case True
      have "\<forall>j < length (x # xs). jle (snd ((x # xs) ! j)) (snd ((x # xs) ! Suc i))"
        using True i(3) by (auto simp: nth_Cons jless_imp_jle split: nat.splits)
      moreover have "\<forall>j < Suc i. jless (snd ((x # xs) ! j)) (snd ((x # xs) ! Suc i))"
        using True i(4) by (auto simp: nth_Cons split: nat.splits)
      ultimately show ?thesis using hd True i(1) by (intro exI[of _ "Suc i"]) simp
    next
      case False
      then have top: "jle (snd (xs ! i)) (snd x)" using ok by (simp add: jle_def)
      have "\<forall>j < length (x # xs). jle (snd ((x # xs) ! j)) (snd ((x # xs) ! 0))"
        using top i(3) ok(1) by (auto simp: nth_Cons jle_refl intro: jle_trans split: nat.splits)
      then show ?thesis using hd False by (intro exI[of _ 0]) simp
    qed
  qed
qed

lemma negative_jneg: "negative (jneg v) = positive v"
  by (cases v) auto

lemma jneg_jsub: "jneg (jsub b a) = jsub a b"
  by (cases a; cases b) (simp_all add: jsub_def rnd_minus [symmetric])

lemma comparator_sign_negative:
  assumes "a \<noteq> NaN" "b \<noteq> NaN" "on_grid a" "on_grid b"
  shows "negative (jsub b a) = jless b a"
proof -
  have "negative (jsub b a) = positive (jsub a b)"
    using negative_jneg [of "jsub a b"] by (simp add: jneg_jsub)
  then show ?thesis using comparator_sign [OF assms(2) assms(1) assms(4) assms(3)] by simp
qed

lemma jless_trans: "jless a b \<Longrightarrow> jless b c \<Longrightarrow> jless a c"
  by (cases a; cases b; cases c) simp_all

lemma jless_irrefl: "\<not> jless a a"
  by (cases a) simp_all

lemma jless_linear: "a \<noteq> NaN \<Longrightarrow> b \<noteq> NaN \<Longrightarrow> jless a b \<or> a = b \<or> jless b a"
  by (cases a; cases b) auto

text \<open>On totals none of which is \<^verbatim>\<open>NaN\<close> the comparator of \<^verbatim>\<open>highestExpense\<close> is consistent.\<close>

lemma totals_consistent:
  fixes xs :: "('a \<times> jsnum) list"
  assumes "\<forall>p \<in> set xs. snd p \<noteq> NaN \<and> on_grid (snd p)"
  shows "consistent_comparator (\<lambda>a b. jsub (snd b) (snd a)) xs"
proof -
  let ?cmp = "\<lambda>a b :: 'a \<times> jsnum. jsub (snd b) (snd a)"
  have pos: "positive (?cmp p q) = jless (snd p) (snd q)" if "p \<in> set xs" "q \<in> set xs" for p q
    using that assms comparator_sign [of "snd p" "snd q"] by simp
  have neg: "negative (?cmp p q) = jless (snd q) (snd p)" if "p \<in> set xs" "q \<in> set xs" for p q
    using that assms comparator_sign_negative [of "snd p" "snd q"] by simp
  have same: "same_rank ?cmp p q \<longleftrightarrow> snd p = snd q" if "p \<in> set xs" "q \<in> set xs" for p q
    using that assms pos [of p q] neg [of p q] jless_linear [of "snd p" "snd q"]
      jless_irrefl [of "snd q"]
    unfolding same_rank_def by auto
  show ?thesis
    unfolding consistent_comparator_def
    using same pos neg jless_trans by (simp; blast)
qed

text \<open>
  Claim C6. In a state none of whose expense rows has the annual total \<^verbatim>\<open>NaN\<close> the
  comparator is consistent, so that the outcome is the same in every engine: without
  expense rows \<open>highestExpense\<close> is undefined; otherwise it is the label and the annual
  total (the sum of the values) of an expense row whose total no other expense row
  exceeds, and every expense row before it in row order has a strictly smaller total.
  The claim as stated, for every state, fails where a total is \<^verbatim>\<open>NaN\<close>: the difference
  of the totals is then \<^verbatim>\<open>NaN\<close>, the row is of the same rank as every other, and a first
  expense row of total \<^verbatim>\<open>NaN\<close> is selected before a row of total 5.
\<close>

theorem highestExpense_largest:
  assumes "\<forall>row \<in> set rs. type' row = Expense \<longrightarrow> sumRecord (values' row) \<noteq> NaN"
  shows "(filter (\<lambda>row. type' row = Expense) rs = [] \<longrightarrow> highestExpense rs = Determined None) \<and>
         (filter (\<lambda>row. type' row = Expense) rs \<noteq> [] \<longrightarrow>
            (\<exists>i < length (filter (\<lambda>row. type' row = Expense) rs).
               highestExpense rs =
                 Determined (Some (label (filter (\<lambda>row. type' row = Expense) rs ! i),
                       sumRecord (values' (filter (\<lambda>row. type' row = Expense) rs ! i)))) \<and>
               (\<forall>j < length (filter (\<lambda>row. type' row = Expense) rs).
                  jle (sumRecord (values' (filter (\<lambda>row. type' row = Expense) rs ! j)))
                      (sumRecord (values' (filter (\<lambda>row. type' row = Expense) rs ! i)))) \<and>
               (\<forall>j < i.
                  jless (sumRecord (values' (filter (\<lambda>row. type' row = Expense) rs ! j)))
                        (sumRecord (values' (filter (\<lambda>row. type' row = Expense) rs ! i))))))"
proof -
  define es where "es = filter (\<lambda>row. type' row = Expense) rs"
  define ts where "ts = map (\<lambda>row. (label row, sumRecord (values' row))) es"
  let ?cmp = "\<lambda>a b :: string \<times> jsnum. jsub (snd b) (snd a)"
  have numbers: "\<forall>p \<in> set ts. snd p \<noteq> NaN \<and> on_grid (snd p)"
    using assms by (auto simp: ts_def es_def sumRecord_on_grid)
  have "array_sort ?cmp ts = Determined (sort_by ?cmp ts)"
    using totals_consistent [OF numbers] by (simp add: array_sort_def)
  then have he: "highestExpense rs =
      Determined (case sort_by ?cmp ts of [] \<Rightarrow> None | best # others \<Rightarrow> Some best)"
    by (simp add: highestExpense_def ts_def es_def split: list.splits)
  have none: "es = [] \<longrightarrow> highestExpense rs = Determined None"
    by (simp add: he ts_def sort_by_def)
  have some: "\<exists>i < length es.
               highestExpense rs = Determined (Some (label (es ! i), sumRecord (values' (es ! i)))) \<and>
               (\<forall>j < length es. jle (sumRecord (values' (es ! j))) (sumRecord (values' (es ! i)))) \<and>
               (\<forall>j < i. jless (sumRecord (values' (es ! j))) (sumRecord (values' (es ! i))))"
    if ne: "es \<noteq> []"
  proof -
    have ts: "ts \<noteq> []" using ne by (simp add: ts_def)
    from hd_sort_by_first_max [OF ts numbers]
    obtain i where i: "i < length ts" "hd (sort_by ?cmp ts) = ts ! i"
        "\<forall>j < length ts. jle (snd (ts ! j)) (snd (ts ! i))"
        "\<forall>j < i. jless (snd (ts ! j)) (snd (ts ! i))"
      by blast
    have "sort_by ?cmp ts \<noteq> []" using ts by (simp add: sort_by_empty)
    then have "highestExpense rs = Determined (Some (ts ! i))"
      using i(2) by (cases "sort_by ?cmp ts") (simp_all add: he)
    moreover have len: "length ts = length es" by (simp add: ts_def)
    moreover have "\<And>j. j < length es \<Longrightarrow> ts ! j = (label (es ! j), sumRecord (values' (es ! j)))"
      by (simp add: ts_def)
    ultimately show ?thesis using i by (intro exI[of _ i]) auto
  qed
  show ?thesis using none some unfolding es_def by blast
qed


lemma sample_rows_expenses:
  "filter (\<lambda>row. type' row = Expense) sample_rows =
     [\<lparr>id' = ''a'', label = ''Coffee'', type' = Expense, values' = assign Jan (Finite 5) createZeroValues\<rparr>,
      \<lparr>id' = ''c'', label = ''Gym'', type' = Expense, values' = assign Mar (Finite 7) createZeroValues\<rparr>,
      \<lparr>id' = ''d'', label = ''Books'', type' = Expense, values' = assign Feb (Finite 7) createZeroValues\<rparr>]"
  by (simp add: sample_rows_def)

lemma sample_rows_totals:
  "sumRecord (assign Jan (Finite 5) createZeroValues) = Finite 5"
  "sumRecord (assign Mar (Finite 7) createZeroValues) = Finite 7"
  "sumRecord (assign Feb (Finite 7) createZeroValues) = Finite 7"
  "sumRecord (assign Jan (Finite 100) createZeroValues) = Finite 100"
  by (simp_all add: createZeroValues_eq MONTHS_def sumRecord_def rnd_small)

theorem highestExpense_largest_witness:
  "map (\<lambda>row. (label row, sumRecord (values' row))) (filter (\<lambda>row. type' row = Expense) sample_rows) =
     [(''Coffee'', Finite 5), (''Gym'', Finite 7), (''Books'', Finite 7)] \<and>
   highestExpense sample_rows = Determined (Some (''Gym'', Finite 7)) \<and>
   highestExpense [] = Determined None"
proof -
  let ?es = "filter (\<lambda>row. type' row = Expense) sample_rows"
  have hyp: "\<forall>row \<in> set sample_rows. type' row = Expense \<longrightarrow> sumRecord (values' row) \<noteq> NaN"
    by (simp add: sample_rows_def sample_rows_totals)
  have ne: "?es \<noteq> []" by (simp add: sample_rows_expenses)
  have len: "length ?es = 3" by (simp add: sample_rows_expenses)
  have t: "sumRecord (values' (?es ! 0)) = Finite 5" "sumRecord (values' (?es ! 1)) = Finite 7"
      "sumRecord (values' (?es ! 2)) = Finite 7" "label (?es ! 1) = ''Gym''"
    by (simp_all add: sample_rows_expenses sample_rows_totals)
  obtain i where i: "i < 3"
      "highestExpense sample_rows = Determined (Some (label (?es ! i), sumRecord (values' (?es ! i))))"
      "\<forall>j < 3. jle (sumRecord (values' (?es ! j))) (sumRecord (values' (?es ! i)))"
      "\<forall>j < i. jless (sumRecord (values' (?es ! j))) (sumRecord (values' (?es ! i)))"
    using highestExpense_largest [OF hyp] ne unfolding len by blast
  have "i \<noteq> 0"
  proof
    assume "i = 0"
    then show False using i(3) [rule_format, of 1] t by (simp add: jle_def)
  qed
  moreover have "i \<noteq> 2"
  proof
    assume "i = 2"
    then show False using i(4) [rule_format, of 1] t by simp
  qed
  ultimately have "i = 1" using i(1) by linarith
  then have "highestExpense sample_rows = Determined (Some (''Gym'', Finite 7))" using i(2) t by simp
  moreover have "highestExpense [] = Determined None"
    using highestExpense_largest [of "[]"] by simp
  moreover have "map (\<lambda>row. (label row, sumRecord (values' row))) ?es =
     [(''Coffee'', Finite 5), (''Gym'', Finite 7), (''Books'', Finite 7)]"
    by (simp add: sample_rows_expenses sample_rows_totals)
  ultimately show ?thesis by blast
qed

text \<open>
  The rows restored from the text whose first expense row holds \<^verbatim>\<open>1e999\<close> and \<^verbatim>\<open>-1e999\<close>:
  every comparison with the total \<^verbatim>\<open>NaN\<close> gives \<^verbatim>\<open>NaN\<close>, the comparator is consistent with
  both rows of the same rank, and the stable sort leaves the row of total \<^verbatim>\<open>NaN\<close> first.
\<close>

lemma restore_nan_total:
  "restore sample_parse (Some nan_total_text) = Restored nan_total_rows ''USD''"
proof -
  have "nan_total_text \<noteq> []" by (simp add: nan_total_text_def)
  moreover have "sample_parse nan_total_text =
     Some (JObj [(''rows'', JArr [JObj [(''id'', JStr ''a''), (''label'', JStr ''A''),
                                     (''type'', JStr ''expense''),
                                     (''values'', JObj [(''Jan'', JNum PosInfinity),
                                                        (''Feb'', JNum NegInfinity)])],
                                JObj [(''id'', JStr ''b''), (''label'', JStr ''B''),
                                     (''type'', JStr ''expense''),
                                     (''values'', JObj [(''Jan'', JNum (Finite 5))])]]),
               (''currency'', JStr ''USD'')])"
    by (simp add: sample_parse_def sample_store_def corrupt_text_def overflow_text_def
        nan_total_text_def)
  ultimately show ?thesis
    by (simp add: restore_def restore_parsed_def read_prop_def asSheetRow_def
        asCategoryType_def asMonthKey_def cloneRows_id nan_total_rows_def)
qed

lemma nan_total_sorted:
  "array_sort (\<lambda>a b. jsub (snd b) (snd a)) [(''A'', NaN), (''B'', Finite 5)] =
     Determined [(''A'', NaN), (''B'', Finite 5)]"
  by (simp add: array_sort_def consistent_comparator_def same_rank_def jsub_def sort_by_def
      rnd_zero)

text \<open>
  With a third row of another total the comparator is not consistent (5 and 7 are each
  of the rank of \<^verbatim>\<open>NaN\<close> and not of the same rank), and the engines differ.
\<close>

lemma consistent_same_rank_trans:
  "consistent_comparator cmp xs \<Longrightarrow> a \<in> set xs \<Longrightarrow> b \<in> set xs \<Longrightarrow> c \<in> set xs \<Longrightarrow>
   same_rank cmp a b \<Longrightarrow> same_rank cmp b c \<Longrightarrow> same_rank cmp a c"
  unfolding consistent_comparator_def by blast

lemma mixed_totals_engine_dependent:
  "array_sort (\<lambda>a b. jsub (snd b) (snd a)) [(''A'', NaN), (''B'', Finite 5), (''C'', Finite 7)] =
     Engine_dependent"
proof -
  let ?cmp = "\<lambda>a b :: string \<times> jsnum. jsub (snd b) (snd a)"
  let ?xs = "[(''A'', NaN), (''B'', Finite 5), (''C'', Finite 7)]"
  have r: "same_rank ?cmp (''B'', Finite 5) (''A'', NaN)" "same_rank ?cmp (''A'', NaN) (''C'', Finite 7)"
      "\<not> same_rank ?cmp (''B'', Finite 5) (''C'', Finite 7)"
    by (simp_all add: same_rank_def jsub_def rnd_small)
  have "\<not> consistent_comparator ?cmp ?xs"
  proof
    assume "consistent_comparator ?cmp ?xs"
    from consistent_same_rank_trans [OF this _ _ _ r(1) r(2)] r(3) show False by simp
  qed
  then show ?thesis by (simp add: array_sort_def)
qed

theorem highestExpense_nan_counterexample:
  "reachable any_rows ((initial (Some nan_total_text))\<lparr>rows := nan_total_rows, currency := ''USD''\<rparr>) \<and>
   map type' nan_total_rows = [Expense, Expense] \<and>
   map label nan_total_rows = [''A'', ''B''] \<and>
   sumRecord (values' (nan_total_rows ! 0)) = NaN \<and>
   sumRecord (values' (nan_total_rows ! 1)) = Finite 5 \<and>
   highestExpense nan_total_rows = Determined (Some (''A'', NaN)) \<and>
   \<not> jle (Finite 5) NaN"
proof -
  have "restore sample_parse (storage (initial (Some nan_total_text))) =
      Restored nan_total_rows ''USD''"
    by (simp add: initial_def restore_nan_total)
  then have "reachable any_rows
      ((initial (Some nan_total_text))\<lparr>rows := nan_total_rows, currency := ''USD''\<rparr>)"
    by (intro reachable.restored [OF reachable.start]) (simp_all add: any_rows_def)
  moreover have "sumRecord (values' (nan_total_rows ! 0)) = NaN"
      "sumRecord (values' (nan_total_rows ! 1)) = Finite 5"
    by (simp_all add: nan_total_rows_def sumRecord_def rnd_small)
  moreover have "highestExpense nan_total_rows = Determined (Some (''A'', NaN))"
    by (simp add: highestExpense_def nan_total_rows_def sumRecord_def rnd_small nan_total_sorted)
  ultimately show ?thesis by (simp add: nan_total_rows_def jle_def)
qed

section \<open>The invariant in the reachable states\<close>

lemma set_MONTHS: "set MONTHS = UNIV"
  using MonthKey_in_MONTHS by blast

lemma distinct_MONTHS: "distinct MONTHS"
  by (simp add: MONTHS_def)

lemma row_ok_createZeroValues:
  "row_ok \<lparr>id' = i, label = l, type' = ty, values' = createZeroValues\<rparr>"
  by (simp add: row_ok_def createZeroValues_eq comp_def distinct_MONTHS list_all_iff)

lemma defaultRows_ok: "list_all row_ok defaultRows"
proof -
  have keys: "map fst (zip MONTHS (map Finite amounts)) = MONTHS" if "length amounts = 12"
    for amounts :: "rat list"
    using that by (simp add: MONTHS_def)
  have "list_all (\<lambda>vs. distinct (map fst vs) \<and> set (map fst vs) = set MONTHS \<and>
           list_all (\<lambda>p. amount_ok (snd p)) vs) (map values' defaultRows)"
    unfolding template_values by (simp add: keys distinct_MONTHS) (simp add: MONTHS_def)
  then show ?thesis by (simp add: list_all_iff row_ok_def)
qed

lemma amount_ok_cell_amount: "amount_ok (cell_amount parsed)"
  by (cases parsed) (simp_all add: cell_amount_def)

lemma set_assign: "set (assign k v obj) \<subseteq> insert (k, v) (set obj)"
  by (induction obj) auto

lemma distinct_assign: "distinct (map fst obj) \<Longrightarrow> distinct (map fst (assign k v obj))"
  by (induction obj) (auto simp: keys_assign split: if_splits)

lemma row_ok_assign:
  assumes "row_ok row" "amount_ok v"
  shows "row_ok (row\<lparr>values' := assign month v (values' row)\<rparr>)"
proof -
  have "month \<in> fst ` set (values' row)" using assms(1) by (simp add: row_ok_def set_MONTHS)
  then have "map fst (assign month v (values' row)) = map fst (values' row)"
    by (simp add: keys_assign)
  moreover have "list_all (\<lambda>p. amount_ok (snd p)) (assign month v (values' row))"
    using assms set_assign [of month v "values' row"] by (auto simp: row_ok_def list_all_iff)
  ultimately show ?thesis using assms(1) by (simp add: row_ok_def)
qed

lemma invariant_handleChange: "invariant s \<Longrightarrow> invariant (handleChange rowId month val s)"
  by (auto simp: invariant_def handleChange_def list_all_iff row_ok_assign amount_ok_cell_amount)

lemma invariant_addRow: "invariant s \<Longrightarrow> invariant (addRow ty answer fresh s)"
  by (auto simp: invariant_def addRow_def row_ok_createZeroValues split: option.splits)

lemma invariant_removeRow: "invariant s \<Longrightarrow> invariant (removeRow rowId s)"
  by (auto simp: invariant_def removeRow_def list_all_iff)

lemma invariant_reset: "invariant s \<Longrightarrow> invariant (reset confirmed s)"
  by (simp add: invariant_def reset_def cloneRows_id defaultRows_ok)

text \<open>Rows that are in order have annual totals other than \<^verbatim>\<open>NaN\<close>.\<close>

lemma rnd_not_negative: "0 \<le> x \<Longrightarrow> not_negative (rnd x)"
proof (cases "x = 0")
  case True
  then show ?thesis by (simp add: rnd_zero)
next
  case False
  assume "0 \<le> x"
  then have pos: "0 < x" using False by simp
  define e where "e = max (ilog2 \<bar>x\<bar>) (- 1022) - 52"
  define m where "m = round_half_even (x / 2 powi e)"
  have "0 \<le> x / 2 powi e" using pos by simp
  then have "0 \<le> \<lfloor>x / 2 powi e\<rfloor>" by simp
  then have "0 \<le> m" using round_half_even_bounds(1) [of "x / 2 powi e"] unfolding m_def by linarith
  then have "0 \<le> of_int m * (2::rat) powi e" by simp
  then show ?thesis
    using pos unfolding rnd_def Let_def e_def[symmetric] m_def[symmetric] by simp
qed

lemma jadd_not_negative: "not_negative a \<Longrightarrow> not_negative b \<Longrightarrow> not_negative (jadd a b)"
  by (cases a; cases b) (simp_all add: rnd_not_negative)

lemma foldl_jadd_not_negative:
  "not_negative a \<Longrightarrow> list_all not_negative vs \<Longrightarrow> not_negative (foldl jadd a vs)"
  by (induction vs arbitrary: a) (simp_all add: jadd_not_negative)

lemma amount_ok_not_negative: "amount_ok v \<Longrightarrow> not_negative v"
  by (cases v) simp_all

lemma row_ok_total: "row_ok row \<Longrightarrow> sumRecord (values' row) \<noteq> NaN"
proof -
  assume "row_ok row"
  then have "list_all not_negative (map snd (values' row))"
    by (auto simp: row_ok_def list_all_iff amount_ok_not_negative)
  then have "not_negative (sumRecord (values' row))"
    unfolding sumRecord_def by (intro foldl_jadd_not_negative) simp_all
  then show ?thesis by auto
qed

text \<open>
  Claim C4. In every state reached from the template by cell edits, added and removed
  rows, resets, currency changes and saves, and by restores of rows that are themselves
  in order, every row has exactly the twelve month keys and every amount is finite and
  not negative. The restoring effect installs the persisted rows as they are: the claim
  as stated, for every restore, fails on a store whose row has the single value
  \<^verbatim>\<open>{"Jan": -5}\<close>.
\<close>

theorem reachable_invariant:
  "reachable (list_all row_ok) s \<Longrightarrow> invariant s"
proof (induction rule: reachable.induct)
  case (start stored)
  then show ?case by (simp add: invariant_def initial_rows defaultRows_ok)
next
  case (restored s JSON_parse rs c)
  then show ?case by (simp add: invariant_def)
next
  case (saved s stringify)
  then show ?case by (simp add: invariant_def save_effect_def)
next
  case (edited s rowId month val)
  then show ?case by (simp add: invariant_handleChange)
next
  case (added s ty answer fresh)
  then show ?case by (simp add: invariant_addRow)
next
  case (removed s rowId)
  then show ?case by (simp add: invariant_removeRow)
next
  case (was_reset s confirmed)
  then show ?case by (simp add: invariant_reset)
next
  case (currency_set s code)
  then show ?case by (simp add: invariant_def setCurrency_def)
qed


theorem reachable_invariant_witness:
  "reachable (list_all row_ok)
     (handleChange ''rent'' Jan ''-5'' (addRow Expense (Some ''Gym'') ''V1StGXR8'' (initial None))) \<and>
   invariant
     (handleChange ''rent'' Jan ''-5'' (addRow Expense (Some ''Gym'') ''V1StGXR8'' (initial None)))"
proof -
  have r: "reachable (list_all row_ok)
     (handleChange ''rent'' Jan ''-5'' (addRow Expense (Some ''Gym'') ''V1StGXR8'' (initial None)))"
    by (intro reachable.edited reachable.added reachable.start)
  show ?thesis using r reachable_invariant [OF r] by simp
qed

lemma sample_parse_corrupt:
  "sample_parse corrupt_text =
     Some (JObj [(''rows'', JArr [JObj [(''id'', JStr ''rent''), (''label'', JStr ''Rent''),
                                     (''type'', JStr ''expense''),
                                     (''values'', JObj [(''Jan'', JNum (Finite (- 5)))])]]),
               (''currency'', JStr ''USD'')])"
  by (simp add: sample_parse_def sample_store_def corrupt_text_def overflow_text_def nan_total_text_def)

lemma restore_corrupt:
  "restore sample_parse (Some corrupt_text) =
     Restored [\<lparr>id' = ''rent'', label = ''Rent'', type' = Expense, values' = [(Jan, Finite (- 5))]\<rparr>] ''USD''"
proof -
  have "corrupt_text \<noteq> []" by (simp add: corrupt_text_def)
  then show ?thesis
    by (simp add: restore_def sample_parse_corrupt restore_parsed_def read_prop_def asSheetRow_def
        asCategoryType_def asMonthKey_def cloneRows_id)
qed

theorem restore_unchecked_counterexample:
  "reachable any_rows
     ((initial (Some corrupt_text))
        \<lparr>rows := [\<lparr>id' = ''rent'', label = ''Rent'', type' = Expense, values' = [(Jan, Finite (- 5))]\<rparr>],
         currency := ''USD''\<rparr>) \<and>
   \<not> invariant
     ((initial (Some corrupt_text))
        \<lparr>rows := [\<lparr>id' = ''rent'', label = ''Rent'', type' = Expense, values' = [(Jan, Finite (- 5))]\<rparr>],
         currency := ''USD''\<rparr>)"
proof
  have "restore sample_parse (storage (initial (Some corrupt_text))) =
     Restored [\<lparr>id' = ''rent'', label = ''Rent'', type' = Expense, values' = [(Jan, Finite (- 5))]\<rparr>] ''USD''"
    by (simp add: initial_def restore_corrupt)
  then show "reachable any_rows
     ((initial (Some corrupt_text))
        \<lparr>rows := [\<lparr>id' = ''rent'', label = ''Rent'', type' = Expense, values' = [(Jan, Finite (- 5))]\<rparr>],
         currency := ''USD''\<rparr>)"
    by (intro reachable.restored [OF reachable.start]) (simp_all add: any_rows_def)
  show "\<not> invariant
     ((initial (Some corrupt_text))
        \<lparr>rows := [\<lparr>id' = ''rent'', label = ''Rent'', type' = Expense, values' = [(Jan, Finite (- 5))]\<rparr>],
         currency := ''USD''\<rparr>)"
    by (simp add: invariant_def row_ok_def)
qed

section \<open>Net position\<close>

lemma jadd_int:
  "\<bar>a + b\<bar> < 2 ^ 53 \<Longrightarrow> jadd (Finite (of_int a)) (Finite (of_int b)) = Finite (of_int (a + b))"
  using rnd_of_int [of "a + b"] by simp

lemma jsub_int:
  "\<bar>a - b\<bar> < 2 ^ 53 \<Longrightarrow> jsub (Finite (of_int a)) (Finite (of_int b)) = Finite (of_int (a - b))"
  using rnd_of_int [of "a - b"] by (simp add: jsub_def)

lemma foldl_jadd_int:
  "\<bar>a\<bar> + sum_list (map abs ks) < 2 ^ 53 \<Longrightarrow>
   foldl jadd (Finite (of_int a)) (map (\<lambda>k. Finite (of_int k)) ks) = Finite (of_int (a + sum_list ks))"
proof (induction ks arbitrary: a)
  case Nil
  then show ?case by simp
next
  case (Cons k ks)
  have "\<bar>a + k\<bar> < 2 ^ 53" using Cons.prems sum_list_abs [of ks] by simp
  then have step: "jadd (Finite (of_int a)) (Finite (of_int k)) = Finite (of_int (a + k))"
    by (rule jadd_int)
  have "\<bar>a + k\<bar> + sum_list (map abs ks) < 2 ^ 53" using Cons.prems by simp
  then have "foldl jadd (Finite (of_int (a + k))) (map (\<lambda>k. Finite (of_int k)) ks) =
      Finite (of_int (a + k + sum_list ks))"
    by (rule Cons.IH)
  moreover have "foldl jadd (Finite (of_int a)) (map (\<lambda>k. Finite (of_int k)) (k # ks)) =
      foldl jadd (Finite (of_int (a + k))) (map (\<lambda>k. Finite (of_int k)) ks)"
    by (simp only: list.map foldl_Cons step)
  ultimately show ?case by (simp add: add.assoc)
qed

lemma elem_le_sum_list_int:
  fixes xs :: "int list"
  shows "x \<in> set xs \<Longrightarrow> \<forall>y \<in> set xs. 0 \<le> y \<Longrightarrow> x \<le> sum_list xs"
proof (induction xs)
  case Nil
  then show ?case by simp
next
  case (Cons y ys)
  have "0 \<le> sum_list ys" using Cons.prems(2) by (intro sum_list_nonneg) simp
  then show ?case using Cons by auto
qed

lemma whole_amount_int: "whole_amount v \<Longrightarrow> v = Finite (of_int (amount_int v)) \<and> 0 \<le> amount_int v"
  by (cases v) auto

lemma totalFor_foldl:
  "totalFor m rs ty =
     foldl jadd (Finite 0) (map (\<lambda>row. amount_at row m) (filter (\<lambda>row. type' row = ty) rs))"
  by (simp add: totalFor_def amount_at_def foldl_map)


lemma whole_sheet_amount:
  "whole_sheet rs \<Longrightarrow> row \<in> set rs \<Longrightarrow>
   amount_at row m = Finite (of_int (amount_int (amount_at row m))) \<and> 0 \<le> amount_int (amount_at row m)"
  using MonthKey_in_MONTHS [of m] by (auto simp: whole_sheet_def list_all_iff intro!: whole_amount_int)

lemma column_sum_nonneg: "whole_sheet rs \<Longrightarrow> 0 \<le> column_sum m rs ty"
  unfolding column_sum_def by (intro sum_list_nonneg) (auto dest: whole_sheet_amount)

lemma sheet_sum_split:
  "sheet_sum rs =
     sum_list (map (\<lambda>m. column_sum m rs Income) MONTHS) +
     sum_list (map (\<lambda>m. column_sum m rs Expense) MONTHS) +
     sum_list (map (\<lambda>m. column_sum m rs Savings) MONTHS)"
  by (simp add: sheet_sum_def sum_list_addf)

lemma annual_column_nonneg:
  "whole_sheet rs \<Longrightarrow> 0 \<le> sum_list (map (\<lambda>m. column_sum m rs ty) ms)"
  by (intro sum_list_nonneg) (auto simp: column_sum_nonneg)

lemma column_sum_le_sheet:
  assumes "whole_sheet rs"
  shows "column_sum m rs Income + column_sum m rs Expense + column_sum m rs Savings \<le> sheet_sum rs"
  unfolding sheet_sum_def
  by (intro elem_le_sum_list_int)
     (use MonthKey_in_MONTHS [of m] column_sum_nonneg [OF assms] in \<open>auto intro!: add_nonneg_nonneg\<close>)

lemma totalFor_whole:
  assumes "whole_sheet rs" "sheet_sum rs < 2 ^ 53"
  shows "totalFor m rs ty = Finite (of_int (column_sum m rs ty))"
proof -
  define sel where "sel = filter (\<lambda>row. type' row = ty) rs"
  define ks where "ks = map (\<lambda>row. amount_int (amount_at row m)) sel"
  have amounts: "map (\<lambda>row. amount_at row m) sel = map (\<lambda>k. Finite (of_int k)) ks"
    using whole_sheet_amount [OF assms(1)] by (simp add: comp_def ks_def sel_def)
  have abs: "map abs ks = ks"
    unfolding ks_def sel_def using whole_sheet_amount [OF assms(1)] by (intro map_idI) auto
  have col: "column_sum m rs ty = sum_list ks" by (simp add: column_sum_def ks_def sel_def)
  have "column_sum m rs ty \<le> sheet_sum rs"
    using column_sum_le_sheet [OF assms(1), of m] column_sum_nonneg [OF assms(1), of m Income]
      column_sum_nonneg [OF assms(1), of m Expense] column_sum_nonneg [OF assms(1), of m Savings]
    by (cases ty) auto
  then have "\<bar>0::int\<bar> + sum_list (map abs ks) < 2 ^ 53"
    unfolding abs using assms(2) col by simp
  then have "foldl jadd (Finite (of_int 0)) (map (\<lambda>k. Finite (of_int k)) ks) = Finite (of_int (0 + sum_list ks))"
    by (rule foldl_jadd_int)
  then show ?thesis
    unfolding totalFor_foldl sel_def[symmetric] amounts col by simp
qed


lemma lookup_tabulate: "m \<in> set ms \<Longrightarrow> lookup (map (\<lambda>m. (m, f m)) ms) m = Some (f m)"
  by (induction ms) (auto simp: lookup_def)

lemma monthly_lookup:
  "lookup (income (monthlyTotals rs)) m = Some (totalFor m rs Income)"
  "lookup (expense (monthlyTotals rs)) m = Some (totalFor m rs Expense)"
  "lookup (savings (monthlyTotals rs)) m = Some (totalFor m rs Savings)"
  "lookup (net (monthlyTotals rs)) m =
     Some (jsub (jsub (totalFor m rs Income) (totalFor m rs Expense)) (totalFor m rs Savings))"
  by (simp_all add: monthlyTotals_eq lookup_tabulate MonthKey_in_MONTHS)

lemma sum_list_abs_le:
  fixes f g :: "'a \<Rightarrow> int"
  shows "(\<And>x. x \<in> set xs \<Longrightarrow> \<bar>f x\<bar> \<le> g x) \<Longrightarrow> sum_list (map abs (map f xs)) \<le> sum_list (map g xs)"
  by (induction xs) (auto intro: add_mono)

lemma annual_identity_whole:
  assumes w: "whole_sheet rs" and b: "sheet_sum rs < 2 ^ 53"
  shows "net (annualTotals rs) =
           jsub (jsub (income (annualTotals rs)) (expense (annualTotals rs))) (savings (annualTotals rs))"
proof -
  define I where "I = (\<lambda>m. column_sum m rs Income)"
  define E where "E = (\<lambda>m. column_sum m rs Expense)"
  define S where "S = (\<lambda>m. column_sum m rs Savings)"
  define AI where "AI = sum_list (map I MONTHS)"
  define AE where "AE = sum_list (map E MONTHS)"
  define AS where "AS = sum_list (map S MONTHS)"
  have nn: "0 \<le> I m" "0 \<le> E m" "0 \<le> S m" for m
    by (simp_all add: I_def E_def S_def column_sum_nonneg [OF w])
  have le: "I m + E m + S m \<le> sheet_sum rs" for m
    using column_sum_le_sheet [OF w, of m] by (simp add: I_def E_def S_def)
  have ann: "0 \<le> AI" "0 \<le> AE" "0 \<le> AS"
    by (simp_all add: AI_def AE_def AS_def I_def E_def S_def annual_column_nonneg [OF w])
  have split: "sheet_sum rs = AI + AE + AS"
    by (simp add: sheet_sum_split AI_def AE_def AS_def I_def E_def S_def)
  have tot: "totalFor m rs Income = Finite (of_int (I m))"
      "totalFor m rs Expense = Finite (of_int (E m))"
      "totalFor m rs Savings = Finite (of_int (S m))" for m
    by (simp_all add: I_def E_def S_def totalFor_whole [OF w b])
  have netm: "jsub (jsub (totalFor m rs Income) (totalFor m rs Expense)) (totalFor m rs Savings) =
      Finite (of_int (I m - E m - S m))" for m
  proof -
    have "\<bar>I m - E m\<bar> < 2 ^ 53" "\<bar>I m - E m - S m\<bar> < 2 ^ 53"
      using nn [of m] le [of m] b by linarith+
    then show ?thesis by (simp only: tot jsub_int)
  qed
  have fold_nonneg: "foldl jadd (Finite 0) (map (\<lambda>m. Finite (of_int (f m))) MONTHS) =
      Finite (of_int (sum_list (map f MONTHS)))"
    if "sum_list (map abs (map f MONTHS)) < 2 ^ 53" for f :: "MonthKey \<Rightarrow> int"
  proof -
    have "\<bar>0::int\<bar> + sum_list (map abs (map f MONTHS)) < 2 ^ 53" using that by simp
    from foldl_jadd_int [OF this] show ?thesis by (simp add: comp_def)
  qed
  have absI: "sum_list (map abs (map I MONTHS)) \<le> AI"
    unfolding AI_def using nn by (intro sum_list_abs_le) simp
  have absE: "sum_list (map abs (map E MONTHS)) \<le> AE"
    unfolding AE_def using nn by (intro sum_list_abs_le) simp
  have absS: "sum_list (map abs (map S MONTHS)) \<le> AS"
    unfolding AS_def using nn by (intro sum_list_abs_le) simp
  have absn: "\<bar>I m - E m - S m\<bar> \<le> I m + E m + S m" for m
    using nn [of m] by linarith
  have "sum_list (map abs (map (\<lambda>m. I m - E m - S m) MONTHS)) \<le> sum_list (map (\<lambda>m. I m + E m + S m) MONTHS)"
    by (intro sum_list_abs_le) (rule absn)
  also have "\<dots> = sheet_sum rs" by (simp add: sheet_sum_def I_def E_def S_def)
  finally have absN: "sum_list (map abs (map (\<lambda>m. I m - E m - S m) MONTHS)) < 2 ^ 53" using b by simp
  have inc: "income (annualTotals rs) = Finite (of_int AI)"
    using fold_nonneg [of I] absI ann split b by (simp add: annualTotals_eq tot AI_def)
  have exp: "expense (annualTotals rs) = Finite (of_int AE)"
    using fold_nonneg [of E] absE ann split b by (simp add: annualTotals_eq tot AE_def)
  have sav: "savings (annualTotals rs) = Finite (of_int AS)"
    using fold_nonneg [of S] absS ann split b by (simp add: annualTotals_eq tot AS_def)
  have "net (annualTotals rs) = Finite (of_int (sum_list (map (\<lambda>m. I m - E m - S m) MONTHS)))"
    using fold_nonneg [OF absN] by (simp add: annualTotals_eq netm)
  also have "sum_list (map (\<lambda>m. I m - E m - S m) MONTHS) = AI - AE - AS"
    by (simp add: AI_def AE_def AS_def sum_list_subtractf)
  finally have net: "net (annualTotals rs) = Finite (of_int (AI - AE - AS))" .
  have "\<bar>AI - AE\<bar> < 2 ^ 53" "\<bar>AI - AE - AS\<bar> < 2 ^ 53"
    using ann split b by linarith+
  then show ?thesis by (simp only: net inc exp sav jsub_int)
qed

text \<open>
  Claim C1. In every state and for every month, the monthly totals of the three types are
  what \<open>totalFor\<close> computes and the monthly net is the income total minus the expense
  total minus the savings total, in the arithmetic of the program; each annual figure is
  the sum of its twelve monthly figures. When the sheet is whole and its amounts add up
  to less than \<open>2^53\<close>, no sum is rounded and the annual net equals the annual income minus
  the annual expense minus the annual savings. With fractional amounts the two differ:
  for an income of 0.1 in November and 0.2 in December and an expense of 0.3 in
  November the annual net is \<open>2^-55\<close> and the difference of the annual totals is \<open>2^-54\<close>.
\<close>

theorem net_identities:
  "(\<forall>m. lookup (income (monthlyTotals rs)) m = Some (totalFor m rs Income) \<and>
        lookup (expense (monthlyTotals rs)) m = Some (totalFor m rs Expense) \<and>
        lookup (savings (monthlyTotals rs)) m = Some (totalFor m rs Savings) \<and>
        lookup (net (monthlyTotals rs)) m =
          Some (jsub (jsub (totalFor m rs Income) (totalFor m rs Expense)) (totalFor m rs Savings))) \<and>
   income (annualTotals rs) = sumRecord (income (monthlyTotals rs)) \<and>
   expense (annualTotals rs) = sumRecord (expense (monthlyTotals rs)) \<and>
   savings (annualTotals rs) = sumRecord (savings (monthlyTotals rs)) \<and>
   net (annualTotals rs) = sumRecord (net (monthlyTotals rs)) \<and>
   (whole_sheet rs \<and> sheet_sum rs < 2 ^ 53 \<longrightarrow>
      net (annualTotals rs) =
        jsub (jsub (income (annualTotals rs)) (expense (annualTotals rs))) (savings (annualTotals rs)))"
  using annual_identity_whole [of rs]
  by (simp add: monthly_lookup annualTotals_def Let_def)

lemma template_monthly_expense:
  "map (\<lambda>m. totalFor m defaultRows Expense) MONTHS =
     map Finite [2688, 2803, 2688, 2803, 2688, 2803, 2688, 2803, 2688, 2803, 2688, 2803]"
  using template_values
  by (simp add: defaultRows_def totalFor_def lookup_def MONTHS_def rnd_small)

lemma template_annual_expense: "expense (annualTotals defaultRows) = Finite 32946"
  by (simp add: annualTotals_eq template_monthly_expense rnd_small)

lemma template_whole: "whole_sheet defaultRows"
  using template_values
  by (simp add: whole_sheet_def defaultRows_def amount_at_def lookup_def MONTHS_def)

lemma template_sheet_sum: "sheet_sum defaultRows = 119346"
  using template_values
  by (simp add: sheet_sum_def column_sum_def defaultRows_def amount_at_def lookup_def MONTHS_def)

theorem net_identities_witness:
  "whole_sheet defaultRows \<and> sheet_sum defaultRows < 2 ^ 53 \<and>
   income (annualTotals defaultRows) = Finite 73800 \<and>
   expense (annualTotals defaultRows) = Finite 32946 \<and>
   savings (annualTotals defaultRows) = Finite 12600 \<and>
   net (annualTotals defaultRows) = Finite 28254 \<and>
   lookup (net (monthlyTotals defaultRows)) Jan =
     Some (jsub (jsub (totalFor Jan defaultRows Income) (totalFor Jan defaultRows Expense))
             (totalFor Jan defaultRows Savings))"
proof -
  have h: "whole_sheet defaultRows \<and> sheet_sum defaultRows < 2 ^ 53"
    by (simp add: template_whole template_sheet_sum)
  have "net (annualTotals defaultRows) =
      jsub (jsub (income (annualTotals defaultRows)) (expense (annualTotals defaultRows)))
           (savings (annualTotals defaultRows))"
    using net_identities [of defaultRows] h by blast
  then have "net (annualTotals defaultRows) = Finite 28254"
    by (simp add: template_annual template_annual_expense jsub_def rnd_small)
  moreover have "lookup (net (monthlyTotals defaultRows)) Jan =
     Some (jsub (jsub (totalFor Jan defaultRows Income) (totalFor Jan defaultRows Expense))
             (totalFor Jan defaultRows Savings))"
    using net_identities [of defaultRows] by blast
  ultimately show ?thesis
    using h by (simp add: template_annual template_annual_expense)
qed

lemma decimal_parsed:
  "parseFloat ''0.1'' = Finite (3602879701896397 / 36028797018963968)"
  "parseFloat ''0.2'' = Finite (3602879701896397 / 18014398509481984)"
  "parseFloat ''0.3'' = Finite (5404319552844595 / 18014398509481984)"
  by code_simp+

text \<open>The decimal rows are reached from the template through the handlers.\<close>

lemma template_removed: "foldr removeRow (map id' defaultRows) (initial stored) = (initial stored)\<lparr>rows := []\<rparr>"
  by (simp add: default_ids removeRow_def initial_def cloneRows_id) (simp add: defaultRows_def)

lemma decimal_cells:
  "cell_amount (parseFloat ''0.1'') = parseFloat ''0.1''"
  "cell_amount (parseFloat ''0.2'') = parseFloat ''0.2''"
  "cell_amount (parseFloat ''0.3'') = parseFloat ''0.3''"
  by (simp_all add: decimal_parsed cell_amount_def)

lemma decimal_rows_reached:
  "rows (handleChange ''rent'' Nov ''0.3''
          (handleChange ''pay'' Dec ''0.2''
            (handleChange ''pay'' Nov ''0.1''
              (addRow Expense (Some ''Rent'') ''rent''
                (addRow Income (Some ''Pay'') ''pay''
                  (foldr removeRow (map id' defaultRows) (initial None))))))) = decimal_rows"
  unfolding template_removed
  by (simp add: addRow_def handleChange_def trim_def is_ws_def decimal_cells
      decimal_rows_def decimal_income_def decimal_expense_def)

lemma decimal_row_values:
  "values' decimal_income =
     zip MONTHS (map Finite [0, 0, 0, 0, 0, 0, 0, 0, 0, 0,
         3602879701896397 / 36028797018963968, 3602879701896397 / 18014398509481984])"
  "values' decimal_expense =
      zip MONTHS (map Finite [0, 0, 0, 0, 0, 0, 0, 0, 0, 0, 5404319552844595 / 18014398509481984, 0])"
  by (simp_all add: decimal_income_def decimal_expense_def decimal_parsed createZeroValues_eq MONTHS_def)

lemma decimal_split:
  "filter (\<lambda>row. type' row = Income) decimal_rows = [decimal_income]"
  "filter (\<lambda>row. type' row = Expense) decimal_rows = [decimal_expense]"
  "filter (\<lambda>row. type' row = Savings) decimal_rows = []"
  by (simp_all add: decimal_rows_def decimal_income_def decimal_expense_def)

lemma decimal_rnd:
  "rnd (3602879701896397 / 36028797018963968) = Finite (3602879701896397 / 36028797018963968)"
  "rnd (3602879701896397 / 18014398509481984) = Finite (3602879701896397 / 18014398509481984)"
  "rnd (5404319552844595 / 18014398509481984) = Finite (5404319552844595 / 18014398509481984)"
  "rnd (- (7205759403792793 / 36028797018963968)) = Finite (- (7205759403792793 / 36028797018963968))"
  "rnd (10808639105689191 / 36028797018963968) = Finite (1351079888211149 / 4503599627370496)"
  "rnd (1 / 36028797018963968) = Finite (1 / 36028797018963968)"
  "rnd (1 / 18014398509481984) = Finite (1 / 18014398509481984)"
  by code_simp+

lemma decimal_monthly:
  "map (\<lambda>m. totalFor m decimal_rows Income) MONTHS =
     map Finite [0, 0, 0, 0, 0, 0, 0, 0, 0, 0,
       3602879701896397 / 36028797018963968, 3602879701896397 / 18014398509481984]"
  "map (\<lambda>m. totalFor m decimal_rows Expense) MONTHS =
     map Finite [0, 0, 0, 0, 0, 0, 0, 0, 0, 0, 5404319552844595 / 18014398509481984, 0]"
  "map (\<lambda>m. totalFor m decimal_rows Savings) MONTHS =
     map Finite [0, 0, 0, 0, 0, 0, 0, 0, 0, 0, 0, 0]"
  unfolding totalFor_def decimal_split
  by (simp_all add: decimal_row_values lookup_def MONTHS_def rnd_zero decimal_rnd)

lemma decimal_nets:
  "map (\<lambda>m. jsub (jsub (totalFor m decimal_rows Income) (totalFor m decimal_rows Expense))
                             (totalFor m decimal_rows Savings)) MONTHS =
     map Finite [0, 0, 0, 0, 0, 0, 0, 0, 0, 0,
       - (7205759403792793 / 36028797018963968), 3602879701896397 / 18014398509481984]"
  using decimal_monthly
  by (simp add: MONTHS_def jsub_def rnd_zero decimal_rnd)

lemma decimal_annual:
  "income (annualTotals decimal_rows) = Finite (1351079888211149 / 4503599627370496)"
  "expense (annualTotals decimal_rows) = Finite (5404319552844595 / 18014398509481984)"
  "savings (annualTotals decimal_rows) = Finite 0"
  "net (annualTotals decimal_rows) = Finite (1 / 36028797018963968)"
  unfolding annualTotals_eq decimal_monthly decimal_nets
  by (simp_all add: rnd_zero decimal_rnd)

lemma decimal_keys: "map (\<lambda>row. map fst (values' row)) decimal_rows = [MONTHS, MONTHS]"
  by (simp add: decimal_rows_def decimal_row_values MONTHS_def)

theorem annual_net_counterexample:
  "map (\<lambda>row. map fst (values' row)) decimal_rows = [MONTHS, MONTHS] \<and>
   net (annualTotals decimal_rows) = Finite (1 / 2 ^ 55) \<and>
   jsub (jsub (income (annualTotals decimal_rows)) (expense (annualTotals decimal_rows)))
        (savings (annualTotals decimal_rows)) = Finite (1 / 2 ^ 54) \<and>
   net (annualTotals decimal_rows) \<noteq>
     jsub (jsub (income (annualTotals decimal_rows)) (expense (annualTotals decimal_rows)))
          (savings (annualTotals decimal_rows))"
  unfolding decimal_annual
  by (simp add: decimal_keys jsub_def decimal_rnd)

end
